theory Spec2Isabelle
  imports Main "HOL-Library.Sublist" "HOL-Library.AList"
begin

section \<open>Values, errors and the Python operations used on them\<close>

text \<open>
  A parsed TOML document is a nested value. Tables are association lists in the order of
  the document (Python dictionaries keep insertion order); a table produced by a parser
  has pairwise distinct keys. Floats and date-times take part in no operation of
  \<open>poetry.py\<close> that integers do not, and are left out.
\<close>

datatype toml =
    TStr string
  | TInt int
  | TBool bool
  | TArr "toml list"
  | TTable "(string \<times> toml) list"

type_synonym table = "(string \<times> toml) list"

text \<open>
  Every \<open>raise\<close> of the source is \<open>RuntimeError\<close> with its message. The other
  constructors are the exceptions of the Python operations themselves (subscripting,
  \<open>in\<close>, attribute access, file access) and of the collaborators.
\<close>

datatype error =
    RuntimeError string
  | KeyError string
  | TypeError
  | AttributeError
  | ValueError
  | FileNotFoundError
  | ExternalError string

text \<open>Sequencing: an exception ends the computation.\<close>

definition and_then :: "error + 'a \<Rightarrow> ('a \<Rightarrow> error + 'b) \<Rightarrow> error + 'b" where
  "and_then m k = (case m of Inl e \<Rightarrow> Inl e | Inr x \<Rightarrow> k x)"

text \<open>\<open>k in v\<close>: key membership on a dictionary, substring on a string, element
  membership on a list; the other values are not iterable.\<close>

fun py_contains :: "toml \<Rightarrow> string \<Rightarrow> error + bool" where
  "py_contains (TTable kvs) k = Inr (map_of kvs k \<noteq> None)"
| "py_contains (TStr s) k = Inr (sublist k s)"
| "py_contains (TArr xs) k = Inr (TStr k \<in> set xs)"
| "py_contains (TInt _) k = Inl TypeError"
| "py_contains (TBool _) k = Inl TypeError"

text \<open>\<open>v[k]\<close> with a string key.\<close>

fun py_getitem :: "toml \<Rightarrow> string \<Rightarrow> error + toml" where
  "py_getitem (TTable kvs) k = (case map_of kvs k of None \<Rightarrow> Inl (KeyError k) | Some v \<Rightarrow> Inr v)"
| "py_getitem _ k = Inl TypeError"

text \<open>\<open>d[k]\<close> and \<open>d.get(k, default)\<close> on a dictionary.\<close>

definition getitem :: "table \<Rightarrow> string \<Rightarrow> error + toml" where
  "getitem d k = (case map_of d k of None \<Rightarrow> Inl (KeyError k) | Some v \<Rightarrow> Inr v)"

definition get_default :: "table \<Rightarrow> string \<Rightarrow> toml \<Rightarrow> toml" where
  "get_default d k dflt = (case map_of d k of None \<Rightarrow> dflt | Some v \<Rightarrow> v)"

text \<open>\<open>v.items()\<close>: only a dictionary has the method.\<close>

fun py_items :: "toml \<Rightarrow> error + table" where
  "py_items (TTable kvs) = Inr kvs"
| "py_items _ = Inl AttributeError"

text \<open>\<open>for x in v\<close>: the elements of a list, the characters of a string, the keys of a
  dictionary.\<close>

fun py_iter :: "toml \<Rightarrow> error + toml list" where
  "py_iter (TArr xs) = Inr xs"
| "py_iter (TStr s) = Inr (map (\<lambda>c. TStr [c]) s)"
| "py_iter (TTable kvs) = Inr (map (\<lambda>kv. TStr (fst kv)) kvs)"
| "py_iter (TInt _) = Inl TypeError"
| "py_iter (TBool _) = Inl TypeError"

text \<open>\<open>str.lower()\<close>, of which \<open>create\<close> only takes the comparison with
  \<open>python\<close>: the letters A to Z are replaced; no other character lower-cases to a
  letter of \<open>python\<close>, and it is kept.\<close>

definition lower_char :: "char \<Rightarrow> char" where
  "lower_char c =
     (case map_of (zip ''ABCDEFGHIJKLMNOPQRSTUVWXYZ'' ''abcdefghijklmnopqrstuvwxyz'') c of
        None \<Rightarrow> c
      | Some l \<Rightarrow> l)"

definition lower :: "string \<Rightarrow> string" where
  "lower s = map lower_char s"

section \<open>Paths and the file system\<close>

text \<open>
  A path is the list of its components below the root, root first; \<open>[]\<close> is the root.
  \<open>p / name\<close> appends a component, \<open>p.parent\<close> drops the last one and
  \<open>p.parents[i]\<close> is \<open>parts[:-i-1]\<close>, for every \<open>i\<close> below the number of components.
\<close>

type_synonym path = "string list"

definition pjoin :: "path \<Rightarrow> string \<Rightarrow> path" where
  "pjoin p n = p @ [n]"

definition parent :: "path \<Rightarrow> path" where
  "parent p = butlast p"

definition parents :: "path \<Rightarrow> path list" where
  "parents p = map (\<lambda>i. take (length p - i - 1) p) [0..<length p]"

text \<open>\<open>p.name\<close>: the last component, empty for the root.\<close>

definition pname :: "path \<Rightarrow> string" where
  "pname p = (if p = [] then [] else last p)"

text \<open>\<open>str(p)\<close> of an absolute POSIX path.\<close>

definition posix :: "path \<Rightarrow> string" where
  "posix p = (if p = [] then ''/'' else concat (map (\<lambda>c. ''/'' @ c) p))"

text \<open>The file system: the content of every path that exists.\<close>

type_synonym fs = "path \<Rightarrow> string option"

definition exists_path :: "fs \<Rightarrow> path \<Rightarrow> bool" where
  "exists_path f p = (f p \<noteq> None)"

section \<open>\<open>Poetry.locate\<close>\<close>

text \<open>The loop over the candidates: the first directory holding \<open>pyproject.toml\<close>
  returns; the \<open>else\<close> of the \<open>for\<close> raises.\<close>

fun locate_loop :: "fs \<Rightarrow> path \<Rightarrow> path list \<Rightarrow> error + path" where
  "locate_loop f cwd [] =
     Inl (RuntimeError (''Poetry could not find a pyproject.toml file in '' @ posix cwd
                         @ '' or its parents''))"
| "locate_loop f cwd (d # ds) =
     (if exists_path f (pjoin d ''pyproject.toml'') then Inr (pjoin d ''pyproject.toml'')
      else locate_loop f cwd ds)"

definition candidates :: "path \<Rightarrow> path list" where
  "candidates cwd = [cwd] @ parents cwd"

definition locate :: "fs \<Rightarrow> path \<Rightarrow> error + path" where
  "locate f cwd = locate_loop f cwd (candidates cwd)"

section \<open>Collaborators\<close>

text \<open>
  The functions and constants that \<open>poetry.py\<close> uses from other modules are parameters:
  the TOML parser behind \<open>TomlFile.read\<close>, \<open>validate_object\<close>, \<open>license_by_id\<close>,
  the python version of the marker environment of \<open>Env.get(cwd)\<close>, \<open>Version.parse\<close>,
  \<open>parse_single_constraint\<close> with the \<open>allows\<close> method of its result,
  \<open>CONFIG_DIR\<close>, \<open>Config()\<close> with \<open>Config.merge\<close>, and \<open>get_http_basic_auth\<close>.
  A collaborator that raises returns \<open>Inl\<close>.
\<close>

record ('ver, 'con, 'cfg) env =
  toml_parse :: "string \<Rightarrow> error + table"
  validate_object :: "toml \<Rightarrow> string \<Rightarrow> string list"
  license_by_id :: "toml \<Rightarrow> error + string"
  marker_python_version :: "path \<Rightarrow> string"
  version_parse :: "string \<Rightarrow> error + 'ver"
  parse_single_constraint :: "toml \<Rightarrow> error + 'con"
  allows :: "'con \<Rightarrow> 'ver \<Rightarrow> bool"
  CONFIG_DIR :: path
  config_new :: 'cfg
  config_merge :: "'cfg \<Rightarrow> table \<Rightarrow> 'cfg"
  get_http_basic_auth :: "'cfg \<Rightarrow> string \<Rightarrow> (string \<times> string) option"

text \<open>\<open>TomlFile(p).read()\<close>: the parsed content of the file at \<open>p\<close>.\<close>

definition read_toml :: "('ver, 'con, 'cfg) env \<Rightarrow> fs \<Rightarrow> path \<Rightarrow> error + table" where
  "read_toml E f p = (case f p of None \<Rightarrow> Inl FileNotFoundError | Some s \<Rightarrow> toml_parse E s)"

section \<open>The package model\<close>

text \<open>
  Modelled from the spec: the classes \<open>Dependency\<close> and \<open>ProjectPackage\<close> of
  \<open>poetry.packages\<close> are not in the source file. A Dependency has a name, a constraint, a
  category and the list \<open>in_extras\<close>, empty when it is created; names are compared as
  they are written. A package starts with empty lists and tables, the declared and the
  pinned version equal, and \<open>*\<close> as its python requirement.
\<close>

record dependency =
  name :: string
  constraint :: toml
  category :: string
  in_extras :: "string list"

definition Dependency :: "string \<Rightarrow> toml \<Rightarrow> string \<Rightarrow> dependency" where
  "Dependency n c cat = \<lparr>name = n, constraint = c, category = cat, in_extras = []\<rparr>"

text \<open>
  A Dependency object lives in \<open>requires\<close>, which only grows, so an object is referred
  to by its position there: \<open>extras\<close> maps the name of an extra to positions in
  \<open>requires\<close>, and a change of \<open>in_extras\<close> is seen through every reference.
\<close>

record package =
  pkg_name :: toml
  pkg_version :: toml
  pretty_version :: toml
  root_dir :: path
  authors :: "toml list"
  maintainers :: "toml list"
  description :: toml
  homepage :: "toml option"
  repository_url :: "toml option"
  documentation_url :: "toml option"
  license :: "string option"
  pkg_keywords :: toml
  classifiers :: toml
  readme :: "(path \<times> string) option"
  platform :: "toml option"
  python_versions :: toml
  requires :: "dependency list"
  extras :: "(string \<times> nat list) list"
  pkg_build :: "toml option"
  pkg_include :: "toml option"
  pkg_exclude :: "toml option"
  pkg_packages :: "toml option"
  custom_urls :: "toml option"

definition ProjectPackage :: "toml \<Rightarrow> toml \<Rightarrow> toml \<Rightarrow> package" where
  "ProjectPackage n v pv =
     \<lparr>pkg_name = n, pkg_version = v, pretty_version = pv, root_dir = [],
      authors = [], maintainers = [], description = TStr [],
      homepage = None, repository_url = None, documentation_url = None,
      license = None, pkg_keywords = TArr [], classifiers = TArr [],
      readme = None, platform = None, python_versions = TStr ''*'',
      requires = [], extras = [],
      pkg_build = None, pkg_include = None, pkg_exclude = None, pkg_packages = None,
      custom_urls = None\<rparr>"

text \<open>
  Modelled from the spec: \<open>Package.add_dependency(name, constraint, category="main")\<close> is
  not in the source file. It creates one Dependency with the given name, constraint and
  category and appends it to \<open>requires\<close>.
\<close>

definition add_dependency :: "package \<Rightarrow> string \<Rightarrow> toml \<Rightarrow> string \<Rightarrow> package" where
  "add_dependency pkg n c cat = pkg\<lparr>requires := requires pkg @ [Dependency n c cat]\<rparr>"

text \<open>The objects an extra refers to, as they are at the end.\<close>

definition extra_dependencies :: "package \<Rightarrow> string \<Rightarrow> dependency list option" where
  "extra_dependencies pkg e = map_option (map (\<lambda>i. requires pkg ! i)) (map_of (extras pkg) e)"

section \<open>\<open>Poetry.create\<close>: the manifest section and its validation\<close>

text \<open>Lines 68 to 72: the test for the \<open>[tool.poetry]\<close> section and its selection.\<close>

definition tool_poetry :: "path \<Rightarrow> table \<Rightarrow> error + toml" where
  "tool_poetry poetry_file doc =
     (case map_of doc ''tool'' of
        None \<Rightarrow> Inl (RuntimeError (''[tool.poetry] section not found in '' @ pname poetry_file))
      | Some t \<Rightarrow>
          (case py_contains t ''poetry'' of
             Inl e \<Rightarrow> Inl e
           | Inr present \<Rightarrow>
               if \<not> present
               then Inl (RuntimeError (''[tool.poetry] section not found in '' @ pname poetry_file))
               else py_getitem t ''poetry''))"

text \<open>
  \<open>Poetry.check\<close>. The listing of the method stops inside the branch for \<open>strict\<close>;
  \<open>create\<close> calls it with \<open>strict = False\<close> and reads \<open>check_result["errors"]\<close>, so
  the value is the dictionary \<open>result\<close> as built up to that branch.
\<close>

record check_result =
  errors :: "string list"
  warnings :: "string list"

definition check :: "('ver, 'con, 'cfg) env \<Rightarrow> toml \<Rightarrow> check_result" where
  "check E config =
     (let result = \<lparr>errors = [], warnings = []\<rparr>;
          validation_errors = validate_object E config ''poetry-schema''
      in result\<lparr>errors := errors result @ validation_errors\<rparr>)"

text \<open>Lines 77 to 81: one line of the message for every error, in order.\<close>

definition invalid_message :: "string list \<Rightarrow> string" where
  "invalid_message errs = foldl (\<lambda>message e. message @ ''  - '' @ e @ [CHR 0x0A]) [] errs"

definition raise_invalid :: "string list \<Rightarrow> error" where
  "raise_invalid errs =
     RuntimeError (''The Poetry configuration is invalid:'' @ [CHR 0x0A] @ invalid_message errs)"

section \<open>\<open>Poetry.create\<close>: loading the package\<close>

text \<open>Lines 84 to 112. \<open>license_by_id\<close> raising \<open>ValueError\<close> gives no license. The
  readme is kept as the directory and the string joined to it; joining a value that is no
  string to a path raises \<open>TypeError\<close>.\<close>

definition find_license :: "('ver, 'con, 'cfg) env \<Rightarrow> toml \<Rightarrow> error + string option" where
  "find_license E v =
     (case license_by_id E v of
        Inl e \<Rightarrow> (if e = ValueError then Inr None else Inl e)
      | Inr l \<Rightarrow> Inr (Some l))"

definition find_readme :: "path \<Rightarrow> table \<Rightarrow> error + (path \<times> string) option" where
  "find_readme poetry_file lc =
     (case map_of lc ''readme'' of
        None \<Rightarrow> Inr None
      | Some (TStr r) \<Rightarrow> Inr (Some (parent poetry_file, r))
      | Some _ \<Rightarrow> Inl TypeError)"

definition load_metadata ::
  "('ver, 'con, 'cfg) env \<Rightarrow> path \<Rightarrow> table \<Rightarrow> error + package" where
  "load_metadata E poetry_file lc =
     and_then (getitem lc ''name'') (\<lambda>n.
     and_then (getitem lc ''version'') (\<lambda>v.
     and_then (getitem lc ''authors'') (\<lambda>a.
     and_then (py_iter a) (\<lambda>as.
     and_then (py_iter (get_default lc ''maintainers'' (TArr []))) (\<lambda>ms.
     and_then (find_license E (get_default lc ''license'' (TStr []))) (\<lambda>lic.
     and_then (find_readme poetry_file lc) (\<lambda>rd.
       Inr ((ProjectPackage n v v)
            \<lparr>root_dir := parent poetry_file,
             authors := as,
             maintainers := ms,
             description := get_default lc ''description'' (TStr []),
             homepage := map_of lc ''homepage'',
             repository_url := map_of lc ''repository'',
             documentation_url := map_of lc ''documentation'',
             license := lic,
             pkg_keywords := get_default lc ''keywords'' (TArr []),
             classifiers := get_default lc ''classifiers'' (TArr []),
             readme := rd,
             platform := map_of lc ''platform''\<rparr>))))))))"

text \<open>Lines 114 to 126: the main dependencies. \<open>isinstance(constraint, list)\<close> is the
  case \<open>TArr\<close>; \<open>add_dependency\<close> is called without a category, which is \<open>main\<close>.\<close>

fun add_each :: "string \<Rightarrow> toml list \<Rightarrow> package \<Rightarrow> package" where
  "add_each n [] pkg = pkg"
| "add_each n (c # cs) pkg = add_each n cs (add_dependency pkg n c ''main'')"

fun dependencies_loop :: "table \<Rightarrow> package \<Rightarrow> package" where
  "dependencies_loop [] pkg = pkg"
| "dependencies_loop ((n, c) # rest) pkg =
     (if lower n = ''python'' then dependencies_loop rest (pkg\<lparr>python_versions := c\<rparr>)
      else (case c of
              TArr cs \<Rightarrow> dependencies_loop rest (add_each n cs pkg)
            | _ \<Rightarrow> dependencies_loop rest (add_dependency pkg n c ''main'')))"

definition load_dependencies :: "table \<Rightarrow> package \<Rightarrow> error + package" where
  "load_dependencies lc pkg =
     (case map_of lc ''dependencies'' of
        None \<Rightarrow> Inr pkg
      | Some d \<Rightarrow> (case py_items d of Inl e \<Rightarrow> Inl e
                   | Inr entries \<Rightarrow> Inr (dependencies_loop entries pkg)))"

text \<open>Lines 128 to 139: the development dependencies, filtered by the python version of
  the host.\<close>

fun dev_constraint_loop ::
  "('ver, 'con, 'cfg) env \<Rightarrow> 'ver \<Rightarrow> string \<Rightarrow> toml list \<Rightarrow> package \<Rightarrow> error + package" where
  "dev_constraint_loop E v n [] pkg = Inr pkg"
| "dev_constraint_loop E v n (c # cs) pkg =
     (case py_contains c ''python'' of
        Inl e \<Rightarrow> Inl e
      | Inr has_python \<Rightarrow>
          if has_python then
            (case py_getitem c ''python'' of
               Inl e \<Rightarrow> Inl e
             | Inr pc \<Rightarrow>
                 (case parse_single_constraint E pc of
                    Inl e \<Rightarrow> Inl e
                  | Inr python_constraint \<Rightarrow>
                      if \<not> allows E python_constraint v
                      then dev_constraint_loop E v n cs pkg
                      else dev_constraint_loop E v n cs (add_dependency pkg n c ''dev'')))
          else dev_constraint_loop E v n cs (add_dependency pkg n c ''dev''))"

fun dev_loop ::
  "('ver, 'con, 'cfg) env \<Rightarrow> 'ver \<Rightarrow> table \<Rightarrow> package \<Rightarrow> error + package" where
  "dev_loop E v [] pkg = Inr pkg"
| "dev_loop E v ((n, c) # rest) pkg =
     (case dev_constraint_loop E v n (case c of TArr cs \<Rightarrow> cs | _ \<Rightarrow> [c]) pkg of
        Inl e \<Rightarrow> Inl e
      | Inr pkg' \<Rightarrow> dev_loop E v rest pkg')"

definition load_dev_dependencies ::
  "('ver, 'con, 'cfg) env \<Rightarrow> path \<Rightarrow> table \<Rightarrow> package \<Rightarrow> error + package" where
  "load_dev_dependencies E cwd lc pkg =
     (case map_of lc ''dev-dependencies'' of
        None \<Rightarrow> Inr pkg
      | Some d \<Rightarrow>
          (case version_parse E (marker_python_version E cwd) of
             Inl e \<Rightarrow> Inl e
           | Inr env_python_version \<Rightarrow>
               (case py_items d of Inl e \<Rightarrow> Inl e
                | Inr entries \<Rightarrow> dev_loop E env_python_version entries pkg)))"

text \<open>Whether lines 135 to 138 let a dictionary through: it has no key \<open>python\<close>, or
  the constraint under that key allows the version of the host. Every other constraint,
  when the lines do not raise on it, is let through.\<close>

definition dev_kept :: "('ver, 'con, 'cfg) env \<Rightarrow> 'ver \<Rightarrow> toml \<Rightarrow> bool" where
  "dev_kept E v c =
     (case c of
        TTable t \<Rightarrow>
          (case map_of t ''python'' of
             None \<Rightarrow> True
           | Some pc \<Rightarrow>
               (case parse_single_constraint E pc of
                  Inl e \<Rightarrow> False
                | Inr python_constraint \<Rightarrow> allows E python_constraint v))
      | _ \<Rightarrow> True)"

text \<open>Lines 141 to 154: the extras. The inner loop stops at the first Dependency of
  \<open>requires\<close> with the name (\<open>break\<close>): \<open>find_dep\<close> is its position. The name of a
  Dependency is a string: \<open>Dependency(req, "*")\<close> on another value raises.\<close>

fun find_dep :: "string \<Rightarrow> dependency list \<Rightarrow> nat option" where
  "find_dep n [] = None"
| "find_dep n (d # ds) = (if name d = n then Some 0 else map_option Suc (find_dep n ds))"

definition mark_extra :: "string \<Rightarrow> nat \<Rightarrow> package \<Rightarrow> package" where
  "mark_extra extra_name i pkg =
     pkg\<lparr>requires := (requires pkg)
             [i := (requires pkg ! i)\<lparr>in_extras := in_extras (requires pkg ! i) @ [extra_name]\<rparr>],
         extras := AList.map_entry extra_name (\<lambda>ds. ds @ [i]) (extras pkg)\<rparr>"

fun requirement_loop :: "string \<Rightarrow> toml list \<Rightarrow> package \<Rightarrow> error + package" where
  "requirement_loop extra_name [] pkg = Inr pkg"
| "requirement_loop extra_name (req # reqs) pkg =
     (case req of
        TStr r \<Rightarrow>
          (case find_dep (name (Dependency r (TStr ''*'') ''main'')) (requires pkg) of
             None \<Rightarrow> requirement_loop extra_name reqs pkg
           | Some i \<Rightarrow> requirement_loop extra_name reqs (mark_extra extra_name i pkg))
      | _ \<Rightarrow> Inl TypeError)"

fun extras_loop :: "table \<Rightarrow> package \<Rightarrow> error + package" where
  "extras_loop [] pkg = Inr pkg"
| "extras_loop ((extra_name, requirements) # rest) pkg =
     (case py_iter requirements of
        Inl e \<Rightarrow> Inl e
      | Inr reqs \<Rightarrow>
          (case requirement_loop extra_name reqs
                  (pkg\<lparr>extras := AList.update extra_name [] (extras pkg)\<rparr>) of
             Inl e \<Rightarrow> Inl e
           | Inr pkg' \<Rightarrow> extras_loop rest pkg'))"

definition load_extras :: "table \<Rightarrow> package \<Rightarrow> error + package" where
  "load_extras lc pkg =
     (case py_items (get_default lc ''extras'' (TTable [])) of
        Inl e \<Rightarrow> Inl e
      | Inr entries \<Rightarrow> extras_loop entries pkg)"

text \<open>Lines 156 to 170: the values copied as they are.\<close>

definition load_passthrough :: "table \<Rightarrow> package \<Rightarrow> package" where
  "load_passthrough lc pkg =
     pkg\<lparr>pkg_build := (case map_of lc ''build'' of None \<Rightarrow> pkg_build pkg | Some v \<Rightarrow> Some v),
         pkg_include := (case map_of lc ''include'' of None \<Rightarrow> pkg_include pkg | Some v \<Rightarrow> Some v),
         pkg_exclude := (case map_of lc ''exclude'' of None \<Rightarrow> pkg_exclude pkg | Some v \<Rightarrow> Some v),
         pkg_packages := (case map_of lc ''packages'' of None \<Rightarrow> pkg_packages pkg | Some v \<Rightarrow> Some v),
         custom_urls := (case map_of lc ''urls'' of None \<Rightarrow> custom_urls pkg | Some v \<Rightarrow> Some v)\<rparr>"

text \<open>Lines 84 to 170 in order. \<open>local_config["name"]\<close> comes first and raises
  \<open>TypeError\<close> unless \<open>local_config\<close> is a dictionary.\<close>

definition load_package ::
  "('ver, 'con, 'cfg) env \<Rightarrow> path \<Rightarrow> path \<Rightarrow> toml \<Rightarrow> error + package" where
  "load_package E cwd poetry_file local_config =
     (case local_config of
        TTable lc \<Rightarrow>
          and_then (load_metadata E poetry_file lc) (\<lambda>p0.
          and_then (load_dependencies lc p0) (\<lambda>p1.
          and_then (load_dev_dependencies E cwd lc p1) (\<lambda>p2.
          and_then (load_extras lc p2) (\<lambda>p3.
            Inr (load_passthrough lc p3)))))
      | _ \<Rightarrow> Inl TypeError)"

section \<open>\<open>Poetry.create\<close>: the lock file and the configuration\<close>

text \<open>\<open>str.rfind\<close> of a character, \<open>Path.suffix\<close> and \<open>Path.with_suffix\<close> on the
  last component; a path without a name raises \<open>ValueError\<close>.\<close>

fun rfind :: "char \<Rightarrow> string \<Rightarrow> nat option" where
  "rfind c [] = None"
| "rfind c (x # xs) =
     (case rfind c xs of Some i \<Rightarrow> Some (Suc i) | None \<Rightarrow> if x = c then Some 0 else None)"

definition suffix_of :: "string \<Rightarrow> string" where
  "suffix_of n =
     (case rfind (CHR ''.'') n of
        None \<Rightarrow> []
      | Some i \<Rightarrow> if 0 < i \<and> i < length n - 1 then drop i n else [])"

definition with_suffix :: "path \<Rightarrow> string \<Rightarrow> error + path" where
  "with_suffix p s =
     (if pname p = [] then Inl ValueError
      else Inr (butlast p @ [take (length (pname p) - length (suffix_of (pname p))) (pname p) @ s]))"

text \<open>\<open>shutil.move\<close> of a file to a path that does not exist.\<close>

definition move :: "fs \<Rightarrow> path \<Rightarrow> path \<Rightarrow> fs" where
  "move f src dst = (f(dst := f src))(src := None)"

text \<open>Lines 173 to 178.\<close>

definition move_lock :: "fs \<Rightarrow> path \<Rightarrow> error + fs" where
  "move_lock f poetry_file =
     (let lock = pjoin (parent poetry_file) ''poetry.lock'' in
      if \<not> exists_path f lock then
        (case with_suffix poetry_file ''.lock'' of
           Inl e \<Rightarrow> Inl e
         | Inr old_lock \<Rightarrow> if exists_path f old_lock then Inr (move f old_lock lock) else Inr f)
      else Inr f)"

text \<open>Lines 182 to 195: one source of the configuration, then the three in order.\<close>

definition merge_file ::
  "('ver, 'con, 'cfg) env \<Rightarrow> fs \<Rightarrow> path \<Rightarrow> 'cfg \<Rightarrow> error + 'cfg" where
  "merge_file E f p config =
     (if exists_path f p
      then (case read_toml E f p of Inl e \<Rightarrow> Inl e | Inr t \<Rightarrow> Inr (config_merge E config t))
      else Inr config)"

text \<open>The three files in the order in which \<open>create\<close> looks at them.\<close>

definition config_sources :: "('ver, 'con, 'cfg) env \<Rightarrow> path \<Rightarrow> path list" where
  "config_sources E poetry_file =
     [pjoin (CONFIG_DIR E) ''config.toml'',
      pjoin (parent poetry_file) ''poetry.toml'',
      pjoin (CONFIG_DIR E) ''auth.toml'']"

definition load_config :: "('ver, 'con, 'cfg) env \<Rightarrow> fs \<Rightarrow> path \<Rightarrow> error + 'cfg" where
  "load_config E f poetry_file =
     and_then (merge_file E f (pjoin (CONFIG_DIR E) ''config.toml'') (config_new E)) (\<lambda>c1.
     and_then (merge_file E f (pjoin (parent poetry_file) ''poetry.toml'') c1) (\<lambda>c2.
       merge_file E f (pjoin (CONFIG_DIR E) ''auth.toml'') c2))"

section \<open>\<open>Poetry.create\<close>\<close>

text \<open>
  Modelled from the spec: the classes \<open>LegacyRepository\<close> and \<open>Auth\<close> are not in the
  source file. A repository handle has the name and the url of the source and, when it is
  authenticated, the url with the pair of username and password.
\<close>

record auth =
  auth_url :: string
  username :: string
  password :: string

record legacy_repository =
  repo_name :: string
  repo_url :: string
  repo_auth :: "auth option"

text \<open>The facade: \<open>Poetry.__init__\<close> keeps its arguments and starts with an empty
  pool of repositories.\<close>

record locker =
  lock_path :: path
  lock_local_config :: toml

record 'cfg poetry =
  manifest_file :: path
  local_config :: toml
  package :: package
  locker :: locker
  config :: 'cfg
  pool :: "legacy_repository list"

text \<open>Lines 65 to 170: the manifest file, its \<open>[tool.poetry]\<close> section and the
  package.\<close>

definition load_manifest ::
  "('ver, 'con, 'cfg) env \<Rightarrow> fs \<Rightarrow> path \<Rightarrow> error + (path \<times> toml \<times> package)" where
  "load_manifest E f cwd =
     and_then (locate f cwd) (\<lambda>poetry_file.
     and_then (read_toml E f poetry_file) (\<lambda>doc.
     and_then (tool_poetry poetry_file doc) (\<lambda>lc.
       if errors (check E lc) \<noteq> [] then Inl (raise_invalid (errors (check E lc)))
       else and_then (load_package E cwd poetry_file lc) (\<lambda>pkg.
              Inr (poetry_file, lc, pkg)))))"

text \<open>Lines 172 to 197: the lock file is moved, then the configuration is read from the
  file system as the move left it.\<close>

definition assemble ::
  "('ver, 'con, 'cfg) env \<Rightarrow> path \<Rightarrow> toml \<Rightarrow> package \<Rightarrow> fs \<Rightarrow> error + 'cfg poetry" where
  "assemble E poetry_file lc pkg f =
     and_then (load_config E f poetry_file) (\<lambda>cfg.
       Inr \<lparr>manifest_file = poetry_file, local_config = lc, package = pkg,
            locker = \<lparr>lock_path = pjoin (parent poetry_file) ''poetry.lock'',
                      lock_local_config = lc\<rparr>,
            config = cfg, pool = []\<rparr>)"

text \<open>The whole of \<open>create\<close>: the facade or the exception, and the file system it
  leaves.\<close>

definition create ::
  "('ver, 'con, 'cfg) env \<Rightarrow> fs \<Rightarrow> path \<Rightarrow> (error + 'cfg poetry) \<times> fs" where
  "create E f cwd =
     (case load_manifest E f cwd of
        Inl e \<Rightarrow> (Inl e, f)
      | Inr (poetry_file, lc, pkg) \<Rightarrow>
          (case move_lock f poetry_file of
             Inl e \<Rightarrow> (Inl e, f)
           | Inr f' \<Rightarrow> (assemble E poetry_file lc pkg f', f')))"

section \<open>\<open>Poetry.create_legacy_repository\<close>\<close>

text \<open>The argument \<open>cfg\<close> is \<open>self._config\<close>.\<close>

definition create_legacy_repository ::
  "('ver, 'con, 'cfg) env \<Rightarrow> 'cfg \<Rightarrow> (string \<times> string) list \<Rightarrow> error + legacy_repository" where
  "create_legacy_repository E cfg source =
     (if map_of source ''url'' \<noteq> None then
        (if map_of source ''name'' = None then Inl (RuntimeError ''Missing [name] in source.'')
         else
           (let n = the (map_of source ''name''); url = the (map_of source ''url'') in
            case get_http_basic_auth E cfg n of
              None \<Rightarrow> Inr \<lparr>repo_name = n, repo_url = url, repo_auth = None\<rparr>
            | Some credentials \<Rightarrow>
                Inr \<lparr>repo_name = n, repo_url = url,
                     repo_auth = Some \<lparr>auth_url = url, username = fst credentials,
                                       password = snd credentials\<rparr>\<rparr>))
      else Inl (RuntimeError ''Unsupported source specified''))"

section \<open>Example inputs\<close>

text \<open>A project in \<open>/home/proj\<close>.\<close>

definition locate_fs :: fs where
  "locate_fs = [[''home'', ''proj'', ''pyproject.toml''] \<mapsto> ''manifest'']"

text \<open>
  Collaborators for the examples: a parser that knows the contents of the files of the
  examples, a validator that asks for \<open>name\<close> and \<open>version\<close>, one known license,
  python versions as pairs of numbers with the constraints \<open><3.0\<close> and \<open>>=3.0\<close>, a
  configuration that is a table merged key by key, and credentials stored under
  \<open>http-basic\<close>.
\<close>

definition example_manifest :: table where
  "example_manifest =
     [(''tool'', TTable [(''poetry'', TTable
        [(''name'', TStr ''demo''),
         (''version'', TStr ''0.1.0''),
         (''authors'', TArr [TStr ''A. Author'']),
         (''dependencies'', TTable
            [(''Python'', TStr ''^3.6''),
             (''foo'', TArr [TStr ''^1.0'', TStr ''^2.0'']),
             (''bar'', TStr ''*'')]),
         (''dev-dependencies'', TTable
            [(''old'', TTable [(''version'', TStr ''1.0''), (''python'', TStr ''<3.0'')]),
             (''new'', TTable [(''version'', TStr ''2.0''), (''python'', TStr ''>=3.0'')]),
             (''plain'', TStr ''^5.0'')]),
         (''extras'', TTable
            [(''feature'', TArr [TStr ''foo'', TStr ''missing'']),
             (''other'', TArr [TStr ''bar'', TStr ''foo''])])])])]"

text \<open>A manifest with one development dependency, whose version constraint is a string
  with the local version label \<open>python\<close>.\<close>

definition local_label_section :: table where
  "local_label_section =
     [(''name'', TStr ''demo''),
      (''version'', TStr ''0.1.0''),
      (''authors'', TArr [TStr ''A. Author'']),
      (''dev-dependencies'', TTable [(''foo'', TStr ''1.0+python'')])]"

text \<open>A manifest with two constraints for one dependency, which an extra names.\<close>

definition two_foo_section :: table where
  "two_foo_section =
     [(''name'', TStr ''demo''),
      (''version'', TStr ''0.1.0''),
      (''authors'', TArr [TStr ''A. Author'']),
      (''dependencies'', TTable [(''foo'', TArr [TStr ''^1.0'', TStr ''^2.0''])]),
      (''extras'', TTable [(''feature'', TArr [TStr ''foo''])])]"

definition example_parse :: "string \<Rightarrow> error + table" where
  "example_parse s =
     (if s = ''manifest'' then Inr example_manifest
      else if s = ''local label'' then
        Inr [(''tool'', TTable [(''poetry'', TTable local_label_section)])]
      else if s = ''two foo'' then
        Inr [(''tool'', TTable [(''poetry'', TTable two_foo_section)])]
      else if s = ''no section'' then Inr [(''tool'', TTable [(''black'', TTable [])])]
      else if s = ''invalid'' then Inr [(''tool'', TTable [(''poetry'', TTable [])])]
      else if s = ''global'' then Inr [(''a'', TInt 1), (''b'', TInt 1)]
      else if s = ''local'' then Inr [(''b'', TInt 2)]
      else if s = ''auth'' then
        Inr [(''http-basic'', TTable [(''private'', TTable
               [(''username'', TStr ''user''), (''password'', TStr ''secret'')])])]
      else Inl (ExternalError ''toml''))"

definition example_validate :: "toml \<Rightarrow> string \<Rightarrow> string list" where
  "example_validate v schema =
     (case v of
        TTable kvs \<Rightarrow>
          (if map_of kvs ''name'' = None then [''name is required''] else []) @
          (if map_of kvs ''version'' = None then [''version is required''] else [])
      | _ \<Rightarrow> [''not a table''])"

definition example_version :: "string \<Rightarrow> error + nat \<times> nat" where
  "example_version s =
     (if s = ''3.9'' then Inr (3, 9) else if s = ''2.7'' then Inr (2, 7)
      else Inl (ExternalError ''version''))"

definition example_constraint :: "toml \<Rightarrow> error + bool \<times> nat \<times> nat" where
  "example_constraint c =
     (if c = TStr ''<3.0'' then Inr (True, 3, 0)
      else if c = TStr ''>=3.0'' then Inr (False, 3, 0)
      else Inl (ExternalError ''constraint''))"

definition example_allows :: "bool \<times> nat \<times> nat \<Rightarrow> nat \<times> nat \<Rightarrow> bool" where
  "example_allows c v =
     (let below = (fst v < fst (snd c) \<or> (fst v = fst (snd c) \<and> snd v < snd (snd c)))
      in if fst c then below else \<not> below)"

definition example_credentials :: "table \<Rightarrow> string \<Rightarrow> (string \<times> string) option" where
  "example_credentials cfg n =
     (case map_of cfg ''http-basic'' of
        Some (TTable repos) \<Rightarrow>
          (case map_of repos n of
             Some (TTable c) \<Rightarrow>
               (case (map_of c ''username'', map_of c ''password'') of
                  (Some (TStr u), Some (TStr p)) \<Rightarrow> Some (u, p)
                | _ \<Rightarrow> None)
           | _ \<Rightarrow> None)
      | _ \<Rightarrow> None)"

definition example_env :: "string \<Rightarrow> (nat \<times> nat, bool \<times> nat \<times> nat, table) env" where
  "example_env host =
     \<lparr>toml_parse = example_parse,
      validate_object = example_validate,
      license_by_id = (\<lambda>v. if v = TStr ''MIT'' then Inr ''MIT'' else Inl ValueError),
      marker_python_version = (\<lambda>cwd. host),
      version_parse = example_version,
      parse_single_constraint = example_constraint,
      allows = example_allows,
      CONFIG_DIR = [''home'', ''user'', ''.config'', ''pypoetry''],
      config_new = [],
      config_merge = (\<lambda>cfg t. foldl (\<lambda>c kv. AList.update (fst kv) (snd kv) c) cfg t),
      get_http_basic_auth = example_credentials\<rparr>"

definition stored_credentials :: table where
  "stored_credentials =
     [(''http-basic'', TTable [(''private'', TTable
         [(''username'', TStr ''user''), (''password'', TStr ''secret'')])])]"

text \<open>A project with the lock file under its old name, a global configuration and stored
  credentials, and no configuration of its own.\<close>

definition project_fs :: fs where
  "project_fs =
     [[''home'', ''proj'', ''pyproject.toml''] \<mapsto> ''manifest'',
      [''home'', ''proj'', ''pyproject.lock''] \<mapsto> ''locked'',
      [''home'', ''user'', ''.config'', ''pypoetry'', ''config.toml''] \<mapsto> ''global'',
      [''home'', ''user'', ''.config'', ''pypoetry'', ''auth.toml''] \<mapsto> ''auth'']"

text \<open>Projects with the other manifests: one without the section, one with an empty
  section, the one with the local version label and the one with two constraints for
  \<open>foo\<close>.\<close>

definition no_section_fs :: fs where
  "no_section_fs = [[''home'', ''proj'', ''pyproject.toml''] \<mapsto> ''no section'']"

definition invalid_fs :: fs where
  "invalid_fs = [[''home'', ''proj'', ''pyproject.toml''] \<mapsto> ''invalid'',
                 [''home'', ''proj'', ''pyproject.lock''] \<mapsto> ''locked'']"

definition local_label_fs :: fs where
  "local_label_fs = [[''home'', ''proj'', ''pyproject.toml''] \<mapsto> ''local label'']"

definition two_foo_fs :: fs where
  "two_foo_fs = [[''home'', ''proj'', ''pyproject.toml''] \<mapsto> ''two foo'']"

text \<open>The package of the example manifest before its dependencies are read, and its
  \<open>[tool.poetry]\<close> section.\<close>

definition demo_package :: package where
  "demo_package = ProjectPackage (TStr ''demo'') (TStr ''0.1.0'') (TStr ''0.1.0'')"

definition example_section :: table where
  "example_section =
     (case map_of example_manifest ''tool'' of
        Some (TTable t) \<Rightarrow> (case map_of t ''poetry'' of Some (TTable lc) \<Rightarrow> lc | _ \<Rightarrow> [])
      | _ \<Rightarrow> [])"

text \<open>A package whose \<open>requires\<close> holds two Dependencies of the same name, as a
  list-valued entry \<open>foo = ["^1.0", "^2.0"]\<close> gives.\<close>

definition two_foo_package :: package where
  "two_foo_package = add_each ''foo'' [TStr ''^1.0'', TStr ''^2.0''] demo_package"

section \<open>Lemmas on paths and location\<close>

lemma candidates_nth:
  "k \<le> length cwd \<Longrightarrow> candidates cwd ! k = take (length cwd - k) cwd"
  by (cases k) (simp_all add: candidates_def parents_def)

lemma candidates_length: "length (candidates cwd) = Suc (length cwd)"
  by (simp add: candidates_def parents_def)

lemma locate_loop_Inr:
  "locate_loop f cwd ds = Inr p \<longleftrightarrow>
     (\<exists>k < length ds. p = pjoin (ds ! k) ''pyproject.toml'' \<and> exists_path f p \<and>
        (\<forall>j < k. \<not> exists_path f (pjoin (ds ! j) ''pyproject.toml'')))"
proof (induction ds)
  case Nil
  show ?case by simp
next
  case (Cons d ds)
  show ?case
  proof (cases "exists_path f (pjoin d ''pyproject.toml'')")
    case True
    have "(\<exists>k < length (d # ds). p = pjoin ((d # ds) ! k) ''pyproject.toml'' \<and> exists_path f p \<and>
        (\<forall>j < k. \<not> exists_path f (pjoin ((d # ds) ! j) ''pyproject.toml'')))
        \<longleftrightarrow> p = pjoin d ''pyproject.toml''"
    proof
      assume "\<exists>k < length (d # ds). p = pjoin ((d # ds) ! k) ''pyproject.toml'' \<and> exists_path f p \<and>
        (\<forall>j < k. \<not> exists_path f (pjoin ((d # ds) ! j) ''pyproject.toml''))"
      then obtain k where k: "p = pjoin ((d # ds) ! k) ''pyproject.toml''"
        "\<forall>j < k. \<not> exists_path f (pjoin ((d # ds) ! j) ''pyproject.toml'')" by blast
      have "k = 0"
      proof (rule ccontr)
        assume "k \<noteq> 0"
        then have "\<not> exists_path f (pjoin ((d # ds) ! 0) ''pyproject.toml'')" using k(2) by blast
        then show False using True by simp
      qed
      then show "p = pjoin d ''pyproject.toml''" using k(1) by simp
    next
      assume "p = pjoin d ''pyproject.toml''"
      then show "\<exists>k < length (d # ds). p = pjoin ((d # ds) ! k) ''pyproject.toml'' \<and> exists_path f p \<and>
        (\<forall>j < k. \<not> exists_path f (pjoin ((d # ds) ! j) ''pyproject.toml''))"
        using True by (intro exI[of _ 0]) simp
    qed
    then show ?thesis using True by auto
  next
    case False
    have "(\<exists>k < length (d # ds). p = pjoin ((d # ds) ! k) ''pyproject.toml'' \<and> exists_path f p \<and>
        (\<forall>j < k. \<not> exists_path f (pjoin ((d # ds) ! j) ''pyproject.toml'')))
        \<longleftrightarrow> (\<exists>k < length ds. p = pjoin (ds ! k) ''pyproject.toml'' \<and> exists_path f p \<and>
        (\<forall>j < k. \<not> exists_path f (pjoin (ds ! j) ''pyproject.toml'')))" (is "?L \<longleftrightarrow> ?R")
    proof
      assume ?L
      then obtain k where k: "k < length (d # ds)" "p = pjoin ((d # ds) ! k) ''pyproject.toml''"
        "exists_path f p"
        "\<forall>j < k. \<not> exists_path f (pjoin ((d # ds) ! j) ''pyproject.toml'')" by blast
      from k(2,3) False have "k \<noteq> 0" by (cases k) auto
      then obtain k' where k': "k = Suc k'" by (cases k) auto
      have "\<forall>j < k'. \<not> exists_path f (pjoin (ds ! j) ''pyproject.toml'')"
      proof (intro allI impI)
        fix j assume "j < k'"
        then have "Suc j < k" using k' by simp
        then have "\<not> exists_path f (pjoin ((d # ds) ! Suc j) ''pyproject.toml'')" using k(4) by blast
        then show "\<not> exists_path f (pjoin (ds ! j) ''pyproject.toml'')" by simp
      qed
      then show ?R using k k' by (intro exI[of _ k']) simp
    next
      assume ?R
      then obtain k where k: "k < length ds" "p = pjoin (ds ! k) ''pyproject.toml''"
        "exists_path f p"
        "\<forall>j < k. \<not> exists_path f (pjoin (ds ! j) ''pyproject.toml'')" by blast
      have "\<forall>j < Suc k. \<not> exists_path f (pjoin ((d # ds) ! j) ''pyproject.toml'')"
      proof (intro allI impI)
        fix j assume "j < Suc k"
        then show "\<not> exists_path f (pjoin ((d # ds) ! j) ''pyproject.toml'')"
          using False k(4) by (cases j) auto
      qed
      then show ?L using k by (intro exI[of _ "Suc k"]) simp
    qed
    then show ?thesis using False Cons.IH by simp
  qed
qed

lemma locate_loop_Inl:
  "locate_loop f cwd ds = Inl e \<longleftrightarrow>
     (e = RuntimeError (''Poetry could not find a pyproject.toml file in '' @ posix cwd
                         @ '' or its parents'') \<and>
      (\<forall>d \<in> set ds. \<not> exists_path f (pjoin d ''pyproject.toml'')))"
  by (induction ds) auto

lemma parent_pow: "(parent ^^ k) cwd = take (length cwd - k) cwd"
proof (induction k)
  case 0 show ?case by simp
next
  case (Suc k)
  have "(parent ^^ Suc k) cwd = parent (take (length cwd - k) cwd)"
    using Suc by simp
  also have "\<dots> = take (length cwd - Suc k) cwd"
    by (simp add: parent_def butlast_take)
  finally show ?case .
qed

lemma candidates_parent_pow:
  "k \<le> length cwd \<Longrightarrow> candidates cwd ! k = (parent ^^ k) cwd"
  by (simp add: candidates_nth parent_pow)

lemma set_candidates: "set (candidates cwd) = {(parent ^^ k) cwd | k. True}"
proof (intro set_eqI iffI)
  fix d assume "d \<in> set (candidates cwd)"
  then obtain k where "k < length (candidates cwd)" "d = candidates cwd ! k"
    by (auto simp: in_set_conv_nth)
  then have "d = (parent ^^ k) cwd"
    by (simp add: candidates_length candidates_parent_pow)
  then show "d \<in> {(parent ^^ k) cwd | k. True}" by blast
next
  fix d assume "d \<in> {(parent ^^ k) cwd | k. True}"
  then obtain k where k: "d = (parent ^^ k) cwd" by blast
  show "d \<in> set (candidates cwd)"
  proof (cases "k \<le> length cwd")
    case True
    then have "candidates cwd ! k = d" using k by (simp add: candidates_parent_pow)
    moreover have "k < length (candidates cwd)" using True by (simp add: candidates_length)
    ultimately show ?thesis by (metis nth_mem)
  next
    case False
    then have "d = (parent ^^ length cwd) cwd" using k by (simp add: parent_pow)
    then have "candidates cwd ! length cwd = d" by (simp add: candidates_parent_pow)
    moreover have "length cwd < length (candidates cwd)" by (simp add: candidates_length)
    ultimately show ?thesis by (metis nth_mem)
  qed
qed

section \<open>The manifest locator\<close>

text \<open>
  Claim C6. \<open>locate\<close> looks for \<open>pyproject.toml\<close> in the starting directory and
  then in each ancestor, nearest first: it returns the file of the \<open>k\<close>-th ancestor
  exactly when that file exists and no nearer directory has one, and it raises the
  "could not find" error exactly when neither the starting directory nor any ancestor
  has the file.
\<close>

theorem locate_nearest_ancestor:
  "(locate f cwd = Inr p \<longleftrightarrow>
      (\<exists>k \<le> length cwd. p = pjoin ((parent ^^ k) cwd) ''pyproject.toml'' \<and> exists_path f p \<and>
         (\<forall>j < k. \<not> exists_path f (pjoin ((parent ^^ j) cwd) ''pyproject.toml''))))
   \<and> (locate f cwd = Inl e \<longleftrightarrow>
        (e = RuntimeError (''Poetry could not find a pyproject.toml file in '' @ posix cwd
                            @ '' or its parents'') \<and>
         (\<forall>k. \<not> exists_path f (pjoin ((parent ^^ k) cwd) ''pyproject.toml''))))"
proof
  have "(\<exists>k < length (candidates cwd). p = pjoin (candidates cwd ! k) ''pyproject.toml'' \<and>
           exists_path f p \<and>
           (\<forall>j < k. \<not> exists_path f (pjoin (candidates cwd ! j) ''pyproject.toml'')))
        \<longleftrightarrow> (\<exists>k \<le> length cwd. p = pjoin ((parent ^^ k) cwd) ''pyproject.toml'' \<and> exists_path f p \<and>
           (\<forall>j < k. \<not> exists_path f (pjoin ((parent ^^ j) cwd) ''pyproject.toml'')))"
    (is "?L \<longleftrightarrow> ?R")
  proof
    assume ?L
    then obtain k where k: "k < length (candidates cwd)"
      "p = pjoin (candidates cwd ! k) ''pyproject.toml''" "exists_path f p"
      "\<forall>j < k. \<not> exists_path f (pjoin (candidates cwd ! j) ''pyproject.toml'')" by blast
    have kl: "k \<le> length cwd" using k(1) by (simp add: candidates_length)
    have "\<forall>j < k. \<not> exists_path f (pjoin ((parent ^^ j) cwd) ''pyproject.toml'')"
      using k(4) kl by (simp add: candidates_parent_pow)
    then show ?R using k kl by (intro exI[of _ k]) (simp add: candidates_parent_pow)
  next
    assume ?R
    then obtain k where k: "k \<le> length cwd"
      "p = pjoin ((parent ^^ k) cwd) ''pyproject.toml''" "exists_path f p"
      "\<forall>j < k. \<not> exists_path f (pjoin ((parent ^^ j) cwd) ''pyproject.toml'')" by blast
    have "\<forall>j < k. \<not> exists_path f (pjoin (candidates cwd ! j) ''pyproject.toml'')"
      using k(4) k(1) by (simp add: candidates_parent_pow)
    then show ?L using k by (intro exI[of _ k]) (simp add: candidates_parent_pow candidates_length)
  qed
  then show "locate f cwd = Inr p \<longleftrightarrow> ?R"
    by (simp only: locate_def locate_loop_Inr)
next
  have "(\<forall>d \<in> set (candidates cwd). \<not> exists_path f (pjoin d ''pyproject.toml''))
        \<longleftrightarrow> (\<forall>k. \<not> exists_path f (pjoin ((parent ^^ k) cwd) ''pyproject.toml''))"
    unfolding set_candidates by blast
  then show "locate f cwd = Inl e \<longleftrightarrow>
        (e = RuntimeError (''Poetry could not find a pyproject.toml file in '' @ posix cwd
                            @ '' or its parents'') \<and>
         (\<forall>k. \<not> exists_path f (pjoin ((parent ^^ k) cwd) ''pyproject.toml'')))"
    by (simp only: locate_def locate_loop_Inl)
qed

theorem locate_nearest_ancestor_witness:
  "locate locate_fs [''home'', ''proj'', ''src''] = Inr [''home'', ''proj'', ''pyproject.toml'']
   \<and> locate Map.empty [''home''] =
       Inl (RuntimeError ''Poetry could not find a pyproject.toml file in /home or its parents'')"
proof
  have "\<exists>k \<le> length [''home'', ''proj'', ''src''].
          [''home'', ''proj'', ''pyproject.toml'']
            = pjoin ((parent ^^ k) [''home'', ''proj'', ''src'']) ''pyproject.toml''
          \<and> exists_path locate_fs [''home'', ''proj'', ''pyproject.toml'']
          \<and> (\<forall>j < k. \<not> exists_path locate_fs
                         (pjoin ((parent ^^ j) [''home'', ''proj'', ''src'']) ''pyproject.toml''))"
    by (intro exI[of _ "Suc 0"])
       (simp add: pjoin_def parent_def exists_path_def locate_fs_def)
  then show "locate locate_fs [''home'', ''proj'', ''src''] = Inr [''home'', ''proj'', ''pyproject.toml'']"
    using locate_nearest_ancestor [of locate_fs "[''home'', ''proj'', ''src'']"
        "[''home'', ''proj'', ''pyproject.toml'']"] by blast
next
  have "\<forall>k. \<not> exists_path Map.empty (pjoin ((parent ^^ k) [''home'']) ''pyproject.toml'')"
    by (simp add: exists_path_def)
  then show "locate Map.empty [''home''] =
       Inl (RuntimeError ''Poetry could not find a pyproject.toml file in /home or its parents'')"
    using locate_nearest_ancestor [of Map.empty "[''home'']" _
        "RuntimeError ''Poetry could not find a pyproject.toml file in /home or its parents''"]
    by (simp add: posix_def)
qed

section \<open>The repository credential resolver\<close>

text \<open>
  Claim C9. For a source descriptor without \<open>url\<close>, \<open>create_legacy_repository\<close> raises
  "Unsupported source specified" (the spec's UnsupportedSource); with \<open>url\<close> and without
  \<open>name\<close> it raises "Missing [name] in source." (MissingSourceName); with both it looks
  the credentials of the name up in the configuration and returns a repository without
  authentication when none are stored, and one with exactly the stored username and
  password when they are. It raises in no other case: missing credentials are no error.
\<close>

theorem create_legacy_repository_cases:
  "(map_of source ''url'' = None \<longrightarrow>
      create_legacy_repository E cfg source = Inl (RuntimeError ''Unsupported source specified''))
   \<and> (map_of source ''url'' \<noteq> None \<and> map_of source ''name'' = None \<longrightarrow>
      create_legacy_repository E cfg source = Inl (RuntimeError ''Missing [name] in source.''))
   \<and> (map_of source ''url'' = Some u \<and> map_of source ''name'' = Some n \<and>
        get_http_basic_auth E cfg n = None \<longrightarrow>
      create_legacy_repository E cfg source
        = Inr \<lparr>repo_name = n, repo_url = u, repo_auth = None\<rparr>)
   \<and> (map_of source ''url'' = Some u \<and> map_of source ''name'' = Some n \<and>
        get_http_basic_auth E cfg n = Some (usr, pw) \<longrightarrow>
      create_legacy_repository E cfg source
        = Inr \<lparr>repo_name = n, repo_url = u,
               repo_auth = Some \<lparr>auth_url = u, username = usr, password = pw\<rparr>\<rparr>)
   \<and> (create_legacy_repository E cfg source = Inl e \<longrightarrow>
        map_of source ''url'' = None \<or> map_of source ''name'' = None)"
  by (auto simp: create_legacy_repository_def split: option.splits)

theorem create_legacy_repository_cases_witness:
  "create_legacy_repository (example_env ''3.9'') stored_credentials [(''name'', ''private'')]
     = Inl (RuntimeError ''Unsupported source specified'')
   \<and> create_legacy_repository (example_env ''3.9'') stored_credentials [(''url'', ''https://x'')]
     = Inl (RuntimeError ''Missing [name] in source.'')
   \<and> create_legacy_repository (example_env ''3.9'') []
        [(''name'', ''private''), (''url'', ''https://x'')]
     = Inr \<lparr>repo_name = ''private'', repo_url = ''https://x'', repo_auth = None\<rparr>
   \<and> create_legacy_repository (example_env ''3.9'') stored_credentials
        [(''name'', ''private''), (''url'', ''https://x'')]
     = Inr \<lparr>repo_name = ''private'', repo_url = ''https://x'',
            repo_auth = Some \<lparr>auth_url = ''https://x'', username = ''user'',
                              password = ''secret''\<rparr>\<rparr>"
proof (intro conjI)
  show "create_legacy_repository (example_env ''3.9'') stored_credentials [(''name'', ''private'')]
     = Inl (RuntimeError ''Unsupported source specified'')"
    using create_legacy_repository_cases
      [where source = "[(''name'', ''private'')]" and E = "example_env ''3.9''"
         and cfg = stored_credentials]
    by simp
  show "create_legacy_repository (example_env ''3.9'') stored_credentials [(''url'', ''https://x'')]
     = Inl (RuntimeError ''Missing [name] in source.'')"
    using create_legacy_repository_cases
      [where source = "[(''url'', ''https://x'')]" and E = "example_env ''3.9''"
         and cfg = stored_credentials]
    by simp
  show "create_legacy_repository (example_env ''3.9'') []
        [(''name'', ''private''), (''url'', ''https://x'')]
     = Inr \<lparr>repo_name = ''private'', repo_url = ''https://x'', repo_auth = None\<rparr>"
    using create_legacy_repository_cases
      [where source = "[(''name'', ''private''), (''url'', ''https://x'')]"
         and u = "''https://x''" and n = "''private''" and E = "example_env ''3.9''"
         and cfg = "[]"]
    by (simp add: example_env_def example_credentials_def)
  show "create_legacy_repository (example_env ''3.9'') stored_credentials
        [(''name'', ''private''), (''url'', ''https://x'')]
     = Inr \<lparr>repo_name = ''private'', repo_url = ''https://x'',
            repo_auth = Some \<lparr>auth_url = ''https://x'', username = ''user'',
                              password = ''secret''\<rparr>\<rparr>"
    using create_legacy_repository_cases
      [where source = "[(''name'', ''private''), (''url'', ''https://x'')]"
         and u = "''https://x''" and n = "''private''" and E = "example_env ''3.9''"
         and cfg = stored_credentials and usr = "''user''" and pw = "''secret''"]
    by (simp add: example_env_def example_credentials_def stored_credentials_def)
qed

text \<open>
  Claim C10. A source descriptor with neither \<open>url\<close> nor \<open>name\<close> raises "Unsupported
  source specified" and not "Missing [name] in source.": \<open>url\<close> is tested first, so the
  missing-name error is raised only for a descriptor that has a \<open>url\<close>.
\<close>

theorem unsupported_source_before_missing_name:
  "(map_of source ''url'' = None \<and> map_of source ''name'' = None \<longrightarrow>
      create_legacy_repository E cfg source = Inl (RuntimeError ''Unsupported source specified'')
      \<and> create_legacy_repository E cfg source \<noteq> Inl (RuntimeError ''Missing [name] in source.''))
   \<and> (create_legacy_repository E cfg source = Inl (RuntimeError ''Missing [name] in source.'')
        \<longrightarrow> map_of source ''url'' \<noteq> None)"
  by (auto simp: create_legacy_repository_def split: option.splits)

theorem unsupported_source_before_missing_name_witness:
  "create_legacy_repository (example_env ''3.9'') stored_credentials [(''branch'', ''main'')]
     = Inl (RuntimeError ''Unsupported source specified'')
   \<and> create_legacy_repository (example_env ''3.9'') stored_credentials [(''branch'', ''main'')]
     \<noteq> Inl (RuntimeError ''Missing [name] in source.'')
   \<and> map_of [(''url'', ''https://x'')] ''url'' \<noteq> None"
proof -
  have a: "create_legacy_repository (example_env ''3.9'') stored_credentials [(''url'', ''https://x'')]
     = Inl (RuntimeError ''Missing [name] in source.'')"
    by (simp add: create_legacy_repository_def)
  show ?thesis
    using unsupported_source_before_missing_name
        [where source = "[(''branch'', ''main'')]" and E = "example_env ''3.9''"
           and cfg = stored_credentials]
      unsupported_source_before_missing_name
        [where source = "[(''url'', ''https://x'')]" and E = "example_env ''3.9''"
         and cfg = stored_credentials] a
    by simp
qed

section \<open>The lock file\<close>

lemma with_suffix_pyproject:
  "with_suffix (pjoin d ''pyproject.toml'') ''.lock'' = Inr (pjoin d ''pyproject.lock'')"
  by (simp add: with_suffix_def pjoin_def pname_def suffix_of_def)

lemma parent_pjoin: "parent (pjoin d n) = d"
  by (simp add: parent_def pjoin_def)

lemma lock_names_differ: "pjoin d ''poetry.lock'' \<noteq> pjoin d ''pyproject.lock''"
  by (simp add: pjoin_def)

lemma move_lock_pyproject:
  "move_lock f (pjoin d ''pyproject.toml'') =
     Inr (if f (pjoin d ''poetry.lock'') = None \<and> f (pjoin d ''pyproject.lock'') \<noteq> None
          then move f (pjoin d ''pyproject.lock'') (pjoin d ''poetry.lock'') else f)"
  by (simp add: move_lock_def Let_def parent_pjoin with_suffix_pyproject exists_path_def)

text \<open>
  Claim C8. For the manifest \<open>d/pyproject.toml\<close> the step always succeeds. If
  \<open>d/poetry.lock\<close> does not exist and \<open>d/pyproject.lock\<close> does, the old file is moved:
  afterwards \<open>d/poetry.lock\<close> has its content, \<open>d/pyproject.lock\<close> is gone and every
  other path is as before. If \<open>d/poetry.lock\<close> exists, or \<open>d/pyproject.lock\<close> does
  not, the file system is unchanged. Running the step on its own result changes nothing.
\<close>

theorem lock_migration:
  "\<exists>f'. move_lock f (pjoin d ''pyproject.toml'') = Inr f'
     \<and> (f (pjoin d ''poetry.lock'') = None \<and> f (pjoin d ''pyproject.lock'') \<noteq> None \<longrightarrow>
          f' (pjoin d ''poetry.lock'') = f (pjoin d ''pyproject.lock'')
          \<and> f' (pjoin d ''pyproject.lock'') = None
          \<and> (\<forall>p. p \<noteq> pjoin d ''poetry.lock'' \<and> p \<noteq> pjoin d ''pyproject.lock'' \<longrightarrow> f' p = f p))
     \<and> (f (pjoin d ''poetry.lock'') \<noteq> None \<longrightarrow> f' = f)
     \<and> (f (pjoin d ''pyproject.lock'') = None \<longrightarrow> f' = f)
     \<and> move_lock f' (pjoin d ''pyproject.toml'') = Inr f'"
proof (cases "f (pjoin d ''poetry.lock'') = None \<and> f (pjoin d ''pyproject.lock'') \<noteq> None")
  case True
  let ?f' = "move f (pjoin d ''pyproject.lock'') (pjoin d ''poetry.lock'')"
  have 1: "move_lock f (pjoin d ''pyproject.toml'') = Inr ?f'"
    using True by (simp add: move_lock_pyproject)
  have 2: "?f' (pjoin d ''poetry.lock'') = f (pjoin d ''pyproject.lock'')"
    using lock_names_differ[of d] by (simp add: move_def)
  have 3: "?f' (pjoin d ''pyproject.lock'') = None"
    by (simp add: move_def)
  have 4: "\<forall>p. p \<noteq> pjoin d ''poetry.lock'' \<and> p \<noteq> pjoin d ''pyproject.lock'' \<longrightarrow> ?f' p = f p"
    by (simp add: move_def)
  have "?f' (pjoin d ''poetry.lock'') \<noteq> None"
    using True 2 by simp
  then have 5: "move_lock ?f' (pjoin d ''pyproject.toml'') = Inr ?f'"
    by (simp only: move_lock_pyproject simp_thms if_False)
  show ?thesis
  proof (intro exI[of _ ?f'] conjI impI)
    show "move_lock f (pjoin d ''pyproject.toml'') = Inr ?f'" by (rule 1)
    show "?f' (pjoin d ''poetry.lock'') = f (pjoin d ''pyproject.lock'')" by (rule 2)
    show "?f' (pjoin d ''pyproject.lock'') = None" by (rule 3)
    show "\<forall>p. p \<noteq> pjoin d ''poetry.lock'' \<and> p \<noteq> pjoin d ''pyproject.lock'' \<longrightarrow> ?f' p = f p"
      by (rule 4)
    show "move_lock ?f' (pjoin d ''pyproject.toml'') = Inr ?f'" by (rule 5)
  next
    assume "f (pjoin d ''poetry.lock'') \<noteq> None"
    then show "?f' = f" using True by simp
  next
    assume "f (pjoin d ''pyproject.lock'') = None"
    then show "?f' = f" using True by simp
  qed
next
  case False
  have 1: "move_lock f (pjoin d ''pyproject.toml'') = Inr f"
    by (simp only: move_lock_pyproject if_not_P[OF False])
  show ?thesis
  proof (intro exI[of _ f] conjI impI)
    show "move_lock f (pjoin d ''pyproject.toml'') = Inr f" by (rule 1)
    show "move_lock f (pjoin d ''pyproject.toml'') = Inr f" by (rule 1)
  next
    assume "f (pjoin d ''poetry.lock'') = None \<and> f (pjoin d ''pyproject.lock'') \<noteq> None"
    then show "f (pjoin d ''poetry.lock'') = f (pjoin d ''pyproject.lock'')"
      "f (pjoin d ''pyproject.lock'') = None"
      "\<forall>p. p \<noteq> pjoin d ''poetry.lock'' \<and> p \<noteq> pjoin d ''pyproject.lock'' \<longrightarrow> f p = f p"
      using False by simp_all
  qed simp_all
qed

theorem lock_migration_witness:
  "(case move_lock project_fs [''home'', ''proj'', ''pyproject.toml''] of
      Inl e \<Rightarrow> False
    | Inr f' \<Rightarrow> f' [''home'', ''proj'', ''poetry.lock''] = Some ''locked''
              \<and> f' [''home'', ''proj'', ''pyproject.lock''] = None
              \<and> f' [''home'', ''proj'', ''pyproject.toml''] = Some ''manifest'')
   \<and> move_lock (project_fs([''home'', ''proj'', ''poetry.lock''] \<mapsto> ''current''))
        [''home'', ''proj'', ''pyproject.toml'']
     = Inr (project_fs([''home'', ''proj'', ''poetry.lock''] \<mapsto> ''current''))"
proof
  obtain f' where f':
    "move_lock project_fs (pjoin [''home'', ''proj''] ''pyproject.toml'') = Inr f'"
    "project_fs (pjoin [''home'', ''proj''] ''poetry.lock'') = None \<and>
     project_fs (pjoin [''home'', ''proj''] ''pyproject.lock'') \<noteq> None \<longrightarrow>
       f' (pjoin [''home'', ''proj''] ''poetry.lock'')
         = project_fs (pjoin [''home'', ''proj''] ''pyproject.lock'')
       \<and> f' (pjoin [''home'', ''proj''] ''pyproject.lock'') = None
       \<and> (\<forall>p. p \<noteq> pjoin [''home'', ''proj''] ''poetry.lock'' \<and>
               p \<noteq> pjoin [''home'', ''proj''] ''pyproject.lock'' \<longrightarrow> f' p = project_fs p)"
    using lock_migration [of project_fs "[''home'', ''proj'']"] by blast
  have pre: "project_fs (pjoin [''home'', ''proj''] ''poetry.lock'') = None \<and>
     project_fs (pjoin [''home'', ''proj''] ''pyproject.lock'') \<noteq> None"
    by (simp add: project_fs_def pjoin_def)
  have a: "f' [''home'', ''proj'', ''poetry.lock''] = Some ''locked''"
    using f'(2) pre by (simp add: pjoin_def project_fs_def)
  have b: "f' [''home'', ''proj'', ''pyproject.lock''] = None"
    using f'(2) pre by (simp add: pjoin_def)
  have "f' [''home'', ''proj'', ''pyproject.toml''] = project_fs [''home'', ''proj'', ''pyproject.toml'']"
    using f'(2) pre by (simp add: pjoin_def)
  then have c: "f' [''home'', ''proj'', ''pyproject.toml''] = Some ''manifest''"
    by (simp add: project_fs_def)
  have "move_lock project_fs [''home'', ''proj'', ''pyproject.toml''] = Inr f'"
    using f'(1) by (simp add: pjoin_def)
  then show "case move_lock project_fs [''home'', ''proj'', ''pyproject.toml''] of
      Inl e \<Rightarrow> False
    | Inr f' \<Rightarrow> f' [''home'', ''proj'', ''poetry.lock''] = Some ''locked''
              \<and> f' [''home'', ''proj'', ''pyproject.lock''] = None
              \<and> f' [''home'', ''proj'', ''pyproject.toml''] = Some ''manifest''"
    using a b c by simp
next
  let ?g = "project_fs([''home'', ''proj'', ''poetry.lock''] \<mapsto> ''current'')"
  obtain f' where f':
    "move_lock ?g (pjoin [''home'', ''proj''] ''pyproject.toml'') = Inr f'"
    "?g (pjoin [''home'', ''proj''] ''poetry.lock'') \<noteq> None \<longrightarrow> f' = ?g"
    using lock_migration [of ?g "[''home'', ''proj'']"] by blast
  have "?g (pjoin [''home'', ''proj''] ''poetry.lock'') \<noteq> None"
    by (simp add: pjoin_def)
  then have "f' = ?g" using f'(2) by blast
  then show "move_lock ?g [''home'', ''proj'', ''pyproject.toml''] = Inr ?g"
    using f'(1) by (simp add: pjoin_def)
qed

section \<open>The configuration\<close>

lemma merge_present:
  "exists_path f p \<Longrightarrow> read_toml E f p = Inr t \<Longrightarrow> merge_file E f p c = Inr (config_merge E c t)"
  by (simp add: merge_file_def)

lemma merge_absent: "\<not> exists_path f p \<Longrightarrow> merge_file E f p c = Inr c"
  by (simp add: merge_file_def)

lemma merge_file_Inl:
  "merge_file E f p c = Inl e \<Longrightarrow> exists_path f p \<and> read_toml E f p = Inl e"
  by (auto simp: merge_file_def split: if_splits sum.splits)

text \<open>The loop that the three steps amount to.\<close>

lemma merge_files_fold:
  "list_all2 (\<lambda>p t. read_toml E f p = Inr t) (filter (exists_path f) ps) ts \<Longrightarrow>
   foldl (\<lambda>r p. and_then r (merge_file E f p)) (Inr c) ps = Inr (foldl (config_merge E) c ts)"
proof (induction ps arbitrary: c ts)
  case Nil
  then show ?case by simp
next
  case (Cons p ps)
  show ?case
  proof (cases "exists_path f p")
    case True
    with Cons.prems obtain t ts' where ts: "ts = t # ts'" "read_toml E f p = Inr t"
      "list_all2 (\<lambda>p t. read_toml E f p = Inr t) (filter (exists_path f) ps) ts'"
      by (auto simp: list_all2_Cons1)
    show ?thesis
      using Cons.IH[OF ts(3)] ts(1,2) True by (simp add: and_then_def merge_present)
  next
    case False
    with Cons.prems have "list_all2 (\<lambda>p t. read_toml E f p = Inr t) (filter (exists_path f) ps) ts"
      by simp
    from Cons.IH[OF this] False show ?thesis by (simp add: and_then_def merge_absent)
  qed
qed

lemma load_config_fold:
  "load_config E f pf =
     foldl (\<lambda>r p. and_then r (merge_file E f p)) (Inr (config_new E)) (config_sources E pf)"
  by (simp add: load_config_def config_sources_def and_then_def split: sum.splits)

text \<open>
  Claim C7. The configuration starts from \<open>Config()\<close>; the global \<open>config.toml\<close>, the
  \<open>poetry.toml\<close> of the project and the global \<open>auth.toml\<close> are merged into it in this
  order, each one only if it exists. If \<open>ts\<close> are the parsed contents of those of the
  three files that exist, in this order, the result is \<open>ts\<close> merged from left to right.
  The composition fails only with the failure of reading a file that exists: a missing
  file is no error.
\<close>

theorem configuration_precedence:
  "(list_all2 (\<lambda>p t. read_toml E f p = Inr t)
       (filter (exists_path f) (config_sources E pf)) ts \<longrightarrow>
      load_config E f pf = Inr (foldl (config_merge E) (config_new E) ts))
   \<and> (load_config E f pf = Inl e \<longrightarrow>
        (\<exists>p \<in> set (config_sources E pf). exists_path f p \<and> read_toml E f p = Inl e))"
proof (intro conjI impI)
  assume "list_all2 (\<lambda>p t. read_toml E f p = Inr t) (filter (exists_path f) (config_sources E pf)) ts"
  then show "load_config E f pf = Inr (foldl (config_merge E) (config_new E) ts)"
    by (simp only: load_config_fold merge_files_fold)
next
  assume a: "load_config E f pf = Inl e"
  show "\<exists>p \<in> set (config_sources E pf). exists_path f p \<and> read_toml E f p = Inl e"
  proof (cases "merge_file E f (pjoin (CONFIG_DIR E) ''config.toml'') (config_new E)")
    case (Inl e1)
    then have "e1 = e" using a by (simp add: load_config_def and_then_def)
    then show ?thesis using merge_file_Inl[OF Inl] by (simp add: config_sources_def)
  next
    case (Inr c1)
    note c1 = Inr
    show ?thesis
    proof (cases "merge_file E f (pjoin (parent pf) ''poetry.toml'') c1")
      case (Inl e2)
      then have "e2 = e" using a c1 by (simp add: load_config_def and_then_def)
      then show ?thesis using merge_file_Inl[OF Inl] by (simp add: config_sources_def)
    next
      case (Inr c2)
      then have "merge_file E f (pjoin (CONFIG_DIR E) ''auth.toml'') c2 = Inl e"
        using a c1 by (simp add: load_config_def and_then_def)
      from merge_file_Inl[OF this] show ?thesis by (simp add: config_sources_def)
    qed
  qed
qed

theorem configuration_precedence_witness:
  "load_config (example_env ''3.9'') project_fs [''home'', ''proj'', ''pyproject.toml'']
     = Inr [(''a'', TInt 1), (''b'', TInt 1),
            (''http-basic'', TTable [(''private'', TTable
               [(''username'', TStr ''user''), (''password'', TStr ''secret'')])])]
   \<and> load_config (example_env ''3.9'')
        (project_fs([''home'', ''proj'', ''poetry.toml''] \<mapsto> ''local''))
        [''home'', ''proj'', ''pyproject.toml'']
     = Inr [(''a'', TInt 1), (''b'', TInt 2),
            (''http-basic'', TTable [(''private'', TTable
               [(''username'', TStr ''user''), (''password'', TStr ''secret'')])])]"
proof
  have "list_all2 (\<lambda>p t. read_toml (example_env ''3.9'') project_fs p = Inr t)
          (filter (exists_path project_fs)
             (config_sources (example_env ''3.9'') [''home'', ''proj'', ''pyproject.toml'']))
          [[(''a'', TInt 1), (''b'', TInt 1)],
           [(''http-basic'', TTable [(''private'', TTable
               [(''username'', TStr ''user''), (''password'', TStr ''secret'')])])]]"
    by (simp add: config_sources_def example_env_def pjoin_def parent_def exists_path_def
          project_fs_def read_toml_def example_parse_def)
  then show "load_config (example_env ''3.9'') project_fs [''home'', ''proj'', ''pyproject.toml'']
     = Inr [(''a'', TInt 1), (''b'', TInt 1),
            (''http-basic'', TTable [(''private'', TTable
               [(''username'', TStr ''user''), (''password'', TStr ''secret'')])])]"
    using configuration_precedence [where E = "example_env ''3.9''" and f = project_fs
        and pf = "[''home'', ''proj'', ''pyproject.toml'']"
        and ts = "[[(''a'', TInt 1), (''b'', TInt 1)],
           [(''http-basic'', TTable [(''private'', TTable
               [(''username'', TStr ''user''), (''password'', TStr ''secret'')])])]]"]
    by (simp add: example_env_def)
next
  let ?g = "project_fs([''home'', ''proj'', ''poetry.toml''] \<mapsto> ''local'')"
  have "list_all2 (\<lambda>p t. read_toml (example_env ''3.9'') ?g p = Inr t)
          (filter (exists_path ?g)
             (config_sources (example_env ''3.9'') [''home'', ''proj'', ''pyproject.toml'']))
          [[(''a'', TInt 1), (''b'', TInt 1)], [(''b'', TInt 2)],
           [(''http-basic'', TTable [(''private'', TTable
               [(''username'', TStr ''user''), (''password'', TStr ''secret'')])])]]"
    by (simp add: config_sources_def example_env_def pjoin_def parent_def exists_path_def
          project_fs_def read_toml_def example_parse_def)
  then show "load_config (example_env ''3.9'') ?g [''home'', ''proj'', ''pyproject.toml'']
     = Inr [(''a'', TInt 1), (''b'', TInt 2),
            (''http-basic'', TTable [(''private'', TTable
               [(''username'', TStr ''user''), (''password'', TStr ''secret'')])])]"
    using configuration_precedence [where E = "example_env ''3.9''" and f = ?g
        and pf = "[''home'', ''proj'', ''pyproject.toml'']"
        and ts = "[[(''a'', TInt 1), (''b'', TInt 1)], [(''b'', TInt 2)],
           [(''http-basic'', TTable [(''private'', TTable
               [(''username'', TStr ''user''), (''password'', TStr ''secret'')])])]]"]
    by (simp add: example_env_def)
qed

section \<open>The manifest section and its validation\<close>

lemma locate_Inr_name: "locate f cwd = Inr pf \<Longrightarrow> \<exists>d. pf = pjoin d ''pyproject.toml''"
  by (auto simp: locate_def locate_loop_Inr)

lemma pname_pjoin: "n \<noteq> [] \<Longrightarrow> pname (pjoin d n) = n"
  by (simp add: pname_def pjoin_def)

lemma locate_example:
  "f [''home'', ''proj'', ''pyproject.toml''] \<noteq> None \<Longrightarrow>
   locate f [''home'', ''proj''] = Inr [''home'', ''proj'', ''pyproject.toml'']"
  by (simp add: locate_def candidates_def parents_def pjoin_def exists_path_def)

lemma foldl_append_concat:
  "foldl (\<lambda>message e. message @ g e) acc errs = acc @ concat (map g errs)"
  by (induction errs arbitrary: acc) simp_all

lemma invalid_message_concat:
  "invalid_message errs = concat (map (\<lambda>e. ''  - '' @ e @ [CHR 0x0A]) errs)"
  unfolding invalid_message_def
  using foldl_append_concat[where g = "\<lambda>e. ''  - '' @ e @ [CHR 0x0A]" and acc = "[]" and errs = errs]
  by simp

lemma sublist_prepend: "sublist xs ys \<Longrightarrow> sublist xs (zs @ ys)"
proof -
  assume "sublist xs ys"
  then obtain ps ss where "ys = ps @ xs @ ss" by (auto simp: sublist_def)
  then have "zs @ ys = (zs @ ps) @ xs @ ss" by simp
  then show ?thesis unfolding sublist_def by blast
qed

lemma sublist_concat_member: "x \<in> set xs \<Longrightarrow> sublist (g x) (concat (map g xs))"
proof (induction xs)
  case Nil
  then show ?case by simp
next
  case (Cons y ys)
  show ?case
  proof (cases "x = y")
    case True
    then show ?thesis by simp
  next
    case False
    with Cons have "sublist (g x) (concat (map g ys))" by simp
    then show ?thesis using sublist_prepend[of "g x" "concat (map g ys)" "g y"] by simp
  qed
qed

lemma check_errors: "errors (check E lc) = validate_object E lc ''poetry-schema''"
  by (simp add: check_def Let_def)

text \<open>
  Claim C5. When the manifest file is found and parsed and its document has no \<open>tool\<close>
  key, or a \<open>tool\<close> table without a \<open>poetry\<close> key, \<open>create\<close> raises "[tool.poetry]
  section not found in pyproject.toml" (the spec's ManifestSectionMissing): no facade and
  no package is returned, and the file system is left as it was.
\<close>

theorem missing_section:
  assumes "locate f cwd = Inr pf"
    and "read_toml E f pf = Inr doc"
    and "map_of doc ''tool'' = None \<or>
         (\<exists>t. map_of doc ''tool'' = Some (TTable t) \<and> map_of t ''poetry'' = None)"
  shows "create E f cwd
           = (Inl (RuntimeError ''[tool.poetry] section not found in pyproject.toml''), f)"
proof -
  obtain d where d: "pf = pjoin d ''pyproject.toml''"
    using locate_Inr_name[OF assms(1)] by blast
  have n: "pname pf = ''pyproject.toml''" unfolding d by (simp add: pname_pjoin)
  have "tool_poetry pf doc
          = Inl (RuntimeError ''[tool.poetry] section not found in pyproject.toml'')"
    using assms(3) n by (auto simp: tool_poetry_def)
  then have "load_manifest E f cwd
          = Inl (RuntimeError ''[tool.poetry] section not found in pyproject.toml'')"
    using assms(1,2) by (simp add: load_manifest_def and_then_def)
  then show ?thesis by (simp add: create_def)
qed

theorem missing_section_witness:
  "create (example_env ''3.9'') no_section_fs [''home'', ''proj'']
     = (Inl (RuntimeError ''[tool.poetry] section not found in pyproject.toml''), no_section_fs)
   \<and> create (example_env ''3.9'') ([[''pyproject.toml''] \<mapsto> ''global'']) []
     = (Inl (RuntimeError ''[tool.poetry] section not found in pyproject.toml''),
        [[''pyproject.toml''] \<mapsto> ''global''])"
proof
  have 1: "locate no_section_fs [''home'', ''proj''] = Inr [''home'', ''proj'', ''pyproject.toml'']"
    by (rule locate_example) (simp add: no_section_fs_def)
  have 2: "read_toml (example_env ''3.9'') no_section_fs [''home'', ''proj'', ''pyproject.toml'']
             = Inr [(''tool'', TTable [(''black'', TTable [])])]"
    by (simp add: read_toml_def no_section_fs_def example_env_def example_parse_def)
  have 3: "map_of [(''tool'', TTable [(''black'', TTable [])])] ''tool'' = None \<or>
         (\<exists>t. map_of [(''tool'', TTable [(''black'', TTable [])])] ''tool'' = Some (TTable t)
              \<and> map_of t ''poetry'' = None)"
    by simp
  show "create (example_env ''3.9'') no_section_fs [''home'', ''proj'']
     = (Inl (RuntimeError ''[tool.poetry] section not found in pyproject.toml''), no_section_fs)"
    by (rule missing_section[OF 1 2 3])
next
  let ?g = "[[''pyproject.toml''] \<mapsto> ''global''] :: fs"
  have 1: "locate ?g [] = Inr [''pyproject.toml'']"
    by (simp add: locate_def candidates_def parents_def pjoin_def exists_path_def)
  have 2: "read_toml (example_env ''3.9'') ?g [''pyproject.toml'']
             = Inr [(''a'', TInt 1), (''b'', TInt 1)]"
    by (simp add: read_toml_def example_env_def example_parse_def)
  have 3: "map_of [(''a'', TInt 1), (''b'', TInt 1)] ''tool'' = None \<or>
         (\<exists>t. map_of [(''a'', TInt 1), (''b'', TInt 1)] ''tool'' = Some (TTable t)
              \<and> map_of t ''poetry'' = None)"
    by simp
  show "create (example_env ''3.9'') ?g [] =
     (Inl (RuntimeError ''[tool.poetry] section not found in pyproject.toml''), ?g)"
    by (rule missing_section[OF 1 2 3])
qed

text \<open>
  Claim C4. When the \<open>[tool.poetry]\<close> section is there and \<open>validate_object\<close> returns a
  non-empty list of errors for it, \<open>create\<close> raises "The Poetry configuration is
  invalid:" (the spec's ManifestInvalid) followed by one line "  - error" for every error
  of the list, in the order of the list. The outcome depends on the section only through
  the list of errors: no field of it is read and nothing is built, and the file system is
  left as it was.
\<close>

theorem invalid_manifest:
  assumes "locate f cwd = Inr pf"
    and "read_toml E f pf = Inr doc"
    and "tool_poetry pf doc = Inr lc"
    and "validate_object E lc ''poetry-schema'' = errs"
    and "errs \<noteq> []"
  shows "\<exists>message.
           create E f cwd = (Inl (RuntimeError message), f)
           \<and> message = ''The Poetry configuration is invalid:'' @ [CHR 0x0A]
                        @ concat (map (\<lambda>e. ''  - '' @ e @ [CHR 0x0A]) errs)
           \<and> (\<forall>e \<in> set errs. sublist (''  - '' @ e @ [CHR 0x0A]) message)"
proof -
  let ?m = "''The Poetry configuration is invalid:'' @ [CHR 0x0A]
                        @ concat (map (\<lambda>e. ''  - '' @ e @ [CHR 0x0A]) errs)"
  have "load_manifest E f cwd = Inl (RuntimeError ?m)"
    using assms
    by (simp add: load_manifest_def and_then_def check_errors raise_invalid_def
          invalid_message_concat)
  then have 1: "create E f cwd = (Inl (RuntimeError ?m), f)" by (simp add: create_def)
  have 2: "\<forall>e \<in> set errs. sublist (''  - '' @ e @ [CHR 0x0A]) ?m"
  proof
    fix e assume "e \<in> set errs"
    then have "sublist (''  - '' @ e @ [CHR 0x0A])
                 (concat (map (\<lambda>e. ''  - '' @ e @ [CHR 0x0A]) errs))"
      by (rule sublist_concat_member)
    then have "sublist (''  - '' @ e @ [CHR 0x0A])
                 ((''The Poetry configuration is invalid:'' @ [CHR 0x0A])
                  @ concat (map (\<lambda>e. ''  - '' @ e @ [CHR 0x0A]) errs))"
      by (rule sublist_prepend)
    then show "sublist (''  - '' @ e @ [CHR 0x0A]) ?m"
      by (simp only: append_assoc)
  qed
  show ?thesis using 1 2 by blast
qed

theorem invalid_manifest_witness:
  "create (example_env ''3.9'') invalid_fs [''home'', ''proj'']
     = (Inl (RuntimeError (''The Poetry configuration is invalid:'' @ [CHR 0x0A]
                           @ ''  - name is required'' @ [CHR 0x0A]
                           @ ''  - version is required'' @ [CHR 0x0A])), invalid_fs)"
proof -
  have 1: "locate invalid_fs [''home'', ''proj''] = Inr [''home'', ''proj'', ''pyproject.toml'']"
    by (rule locate_example) (simp add: invalid_fs_def)
  have 2: "read_toml (example_env ''3.9'') invalid_fs [''home'', ''proj'', ''pyproject.toml'']
             = Inr [(''tool'', TTable [(''poetry'', TTable [])])]"
    by (simp add: read_toml_def invalid_fs_def example_env_def example_parse_def)
  have 3: "tool_poetry [''home'', ''proj'', ''pyproject.toml'']
             [(''tool'', TTable [(''poetry'', TTable [])])] = Inr (TTable [])"
    by (simp add: tool_poetry_def)
  have 4: "validate_object (example_env ''3.9'') (TTable []) ''poetry-schema''
             = [''name is required'', ''version is required'']"
    by (simp add: example_env_def example_validate_def)
  have 5: "[''name is required'', ''version is required''] \<noteq> []" by simp
  from invalid_manifest[OF 1 2 3 4 5] show ?thesis by simp
qed

section \<open>The main dependencies\<close>

lemma add_each_requires:
  "requires (add_each n cs pkg) = requires pkg @ map (\<lambda>c. Dependency n c ''main'') cs"
  by (induction cs arbitrary: pkg) (simp_all add: add_dependency_def)

lemma add_each_python_versions: "python_versions (add_each n cs pkg) = python_versions pkg"
  by (induction cs arbitrary: pkg) (simp_all add: add_dependency_def)

lemma dependencies_loop_requires:
  "requires (dependencies_loop entries pkg) =
     requires pkg @ concat (map (\<lambda>(n, c).
        if lower n = ''python'' then []
        else (case c of TArr cs \<Rightarrow> map (\<lambda>c'. Dependency n c' ''main'') cs
                      | _ \<Rightarrow> [Dependency n c ''main''])) entries)"
proof (induction entries arbitrary: pkg)
  case Nil
  show ?case by simp
next
  case (Cons entry entries)
  obtain n c where entry: "entry = (n, c)" by (cases entry)
  show ?case
  proof (cases "lower n = ''python''")
    case True
    then show ?thesis using Cons.IH[of "pkg\<lparr>python_versions := c\<rparr>"] entry by simp
  next
    case False
    show ?thesis
    proof (cases c)
      case (TArr cs)
      then show ?thesis using Cons.IH[of "add_each n cs pkg"] entry False
        by (simp add: add_each_requires)
    qed (use Cons.IH[of "add_dependency pkg n c ''main''"] entry False
         in \<open>simp_all add: add_dependency_def\<close>)
  qed
qed

lemma dependencies_loop_python_versions:
  "python_versions (dependencies_loop entries pkg) =
     (case filter (\<lambda>(n, c). lower n = ''python'') entries of
        [] \<Rightarrow> python_versions pkg
      | p # ps \<Rightarrow> snd (last (p # ps)))"
proof (induction entries arbitrary: pkg)
  case Nil
  show ?case by simp
next
  case (Cons entry entries)
  obtain n c where entry: "entry = (n, c)" by (cases entry)
  show ?case
  proof (cases "lower n = ''python''")
    case True
    then show ?thesis using Cons.IH[of "pkg\<lparr>python_versions := c\<rparr>"] entry
      by (simp split: list.splits)
  next
    case False
    show ?thesis
    proof (cases c)
      case (TArr cs)
      then show ?thesis using Cons.IH[of "add_each n cs pkg"] entry False
        by (simp add: add_each_python_versions split: list.splits)
    qed (use Cons.IH[of "add_dependency pkg n c ''main''"] entry False
         in \<open>simp_all add: add_dependency_def split: list.splits\<close>)
  qed
qed

text \<open>
  Claim C2. When \<open>dependencies\<close> is a table, its entries are read in order. An entry
  whose name is \<open>python\<close> in any mix of upper and lower case adds nothing to
  \<open>requires\<close> and its constraint becomes the python requirement of the package (the last
  such entry stands). Every other entry adds, at the end of \<open>requires\<close>, one Dependency
  of category \<open>main\<close> with its name and constraint when the constraint is not a list,
  and one such Dependency for each of the \<open>k\<close> elements when it is a list of length
  \<open>k\<close>.
\<close>

theorem main_dependencies:
  assumes "map_of lc ''dependencies'' = Some (TTable entries)"
  shows "\<exists>pkg'. load_dependencies lc pkg = Inr pkg'
    \<and> requires pkg' =
        requires pkg @ concat (map (\<lambda>(n, c).
          if lower n = ''python'' then []
          else (case c of TArr cs \<Rightarrow> map (\<lambda>c'. Dependency n c' ''main'') cs
                        | _ \<Rightarrow> [Dependency n c ''main''])) entries)
    \<and> python_versions pkg' =
        (case filter (\<lambda>(n, c). lower n = ''python'') entries of
           [] \<Rightarrow> python_versions pkg
         | p # ps \<Rightarrow> snd (last (p # ps)))"
  using assms
  by (simp add: load_dependencies_def dependencies_loop_requires
        dependencies_loop_python_versions)

theorem main_dependencies_witness:
  "(case load_dependencies example_section demo_package of
      Inl e \<Rightarrow> False
    | Inr pkg' \<Rightarrow>
        requires pkg' = [Dependency ''foo'' (TStr ''^1.0'') ''main'',
                         Dependency ''foo'' (TStr ''^2.0'') ''main'',
                         Dependency ''bar'' (TStr ''*'') ''main'']
        \<and> python_versions pkg' = TStr ''^3.6'')"
proof -
  have 1: "map_of example_section ''dependencies'' = Some (TTable
            [(''Python'', TStr ''^3.6''),
             (''foo'', TArr [TStr ''^1.0'', TStr ''^2.0'']),
             (''bar'', TStr ''*'')])"
    by (simp add: example_section_def example_manifest_def)
  have 2: "requires demo_package = []" "python_versions demo_package = TStr ''*''"
    by (simp_all add: demo_package_def ProjectPackage_def)
  from main_dependencies[OF 1, of demo_package] obtain pkg' where
    "load_dependencies example_section demo_package = Inr pkg'"
    "requires pkg' = [Dependency ''foo'' (TStr ''^1.0'') ''main'',
                         Dependency ''foo'' (TStr ''^2.0'') ''main'',
                         Dependency ''bar'' (TStr ''*'') ''main'']"
    "python_versions pkg' = TStr ''^3.6''"
    by (auto simp: 2 lower_def lower_char_def)
  then show ?thesis by simp
qed

section \<open>The extras\<close>

lemma find_dep_less: "find_dep n ds = Some i \<Longrightarrow> i < length ds"
  by (induction ds arbitrary: i) (auto split: if_splits)

lemma find_dep_first:
  "find_dep n ds = Some i \<longleftrightarrow>
     i < length ds \<and> name (ds ! i) = n \<and> (\<forall>j < i. name (ds ! j) \<noteq> n)"
proof (induction ds arbitrary: i)
  case Nil
  show ?case by simp
next
  case (Cons d ds)
  show ?case
  proof (cases "name d = n")
    case True
    have "(i < length (d # ds) \<and> name ((d # ds) ! i) = n \<and> (\<forall>j < i. name ((d # ds) ! j) \<noteq> n))
          \<longleftrightarrow> i = 0"
    proof
      assume a: "i < length (d # ds) \<and> name ((d # ds) ! i) = n \<and> (\<forall>j < i. name ((d # ds) ! j) \<noteq> n)"
      show "i = 0"
      proof (rule ccontr)
        assume "i \<noteq> 0"
        then have "name ((d # ds) ! 0) \<noteq> n" using a by blast
        then show False using True by simp
      qed
    next
      assume "i = 0"
      then show "i < length (d # ds) \<and> name ((d # ds) ! i) = n \<and> (\<forall>j < i. name ((d # ds) ! j) \<noteq> n)"
        using True by simp
    qed
    then show ?thesis using True by auto
  next
    case False
    show ?thesis
    proof (cases i)
      case 0
      then show ?thesis using False by simp
    next
      case (Suc i')
      have "(\<forall>j < Suc i'. name ((d # ds) ! j) \<noteq> n) \<longleftrightarrow> (\<forall>j < i'. name (ds ! j) \<noteq> n)"
      proof
        assume a: "\<forall>j < Suc i'. name ((d # ds) ! j) \<noteq> n"
        show "\<forall>j < i'. name (ds ! j) \<noteq> n"
        proof (intro allI impI)
          fix j assume "j < i'"
          then have "Suc j < Suc i'" by simp
          then have "name ((d # ds) ! Suc j) \<noteq> n" using a by blast
          then show "name (ds ! j) \<noteq> n" by simp
        qed
      next
        assume a: "\<forall>j < i'. name (ds ! j) \<noteq> n"
        show "\<forall>j < Suc i'. name ((d # ds) ! j) \<noteq> n"
        proof (intro allI impI)
          fix j assume "j < Suc i'"
          then show "name ((d # ds) ! j) \<noteq> n" using a False by (cases j) auto
        qed
      qed
      then show ?thesis using False Suc Cons.IH[of i'] by auto
    qed
  qed
qed

lemma find_dep_None: "find_dep n ds = None \<longleftrightarrow> (\<forall>d \<in> set ds. name d \<noteq> n)"
  by (induction ds) auto

lemma find_dep_names: "map name ds = map name ds' \<Longrightarrow> find_dep n ds = find_dep n ds'"
proof (induction ds arbitrary: ds')
  case Nil
  then show ?case by simp
next
  case (Cons d ds)
  then obtain d' ds'' where "ds' = d' # ds''" "name d = name d'" "map name ds = map name ds''"
    by (cases ds') auto
  then show ?case using Cons.IH[of ds''] by simp
qed

lemma mark_extra_names:
  "i < length (requires pkg) \<Longrightarrow>
   map name (requires (mark_extra e i pkg)) = map name (requires pkg)"
  by (simp add: mark_extra_def map_update list_update_same_conv)

lemma update_fresh: "k \<notin> fst ` set al \<Longrightarrow> AList.update k v al = al @ [(k, v)]"
  by (induction al) auto

lemma map_entry_last:
  "k \<notin> fst ` set al \<Longrightarrow> AList.map_entry k g (al @ [(k, v)]) = al @ [(k, g v)]"
  by (induction al) auto

lemma requirement_loop_strings:
  assumes "extras pkg = al @ [(e, xs)]" and "e \<notin> fst ` set al"
  shows "\<exists>pkg'. requirement_loop e (map TStr ns) pkg = Inr pkg'
     \<and> map name (requires pkg') = map name (requires pkg)
     \<and> (\<forall>i < length (requires pkg).
          requires pkg' ! i = (requires pkg ! i)
            \<lparr>in_extras := in_extras (requires pkg ! i)
               @ map (\<lambda>n. e) (filter (\<lambda>n. find_dep n (requires pkg) = Some i) ns)\<rparr>)
     \<and> extras pkg' = al @ [(e, xs @ concat (map (\<lambda>n. case find_dep n (requires pkg) of
                                                    None \<Rightarrow> [] | Some i \<Rightarrow> [i]) ns))]"
  using assms
proof (induction ns arbitrary: pkg xs)
  case Nil
  then show ?case by simp
next
  case (Cons n ns)
  show ?case
  proof (cases "find_dep n (requires pkg)")
    case None
    from Cons.IH[OF Cons.prems] obtain pkg' where p:
      "requirement_loop e (map TStr ns) pkg = Inr pkg'"
      "map name (requires pkg') = map name (requires pkg)"
      "\<forall>i < length (requires pkg).
          requires pkg' ! i = (requires pkg ! i)
            \<lparr>in_extras := in_extras (requires pkg ! i)
               @ map (\<lambda>n. e) (filter (\<lambda>n. find_dep n (requires pkg) = Some i) ns)\<rparr>"
      "extras pkg' = al @ [(e, xs @ concat (map (\<lambda>n. case find_dep n (requires pkg) of
                                                    None \<Rightarrow> [] | Some i \<Rightarrow> [i]) ns))]"
      by blast
    have "requirement_loop e (map TStr (n # ns)) pkg = Inr pkg'"
      using None p(1) by (simp add: Dependency_def)
    then show ?thesis using None p(2,3,4) by simp
  next
    case (Some i0)
    let ?p1 = "mark_extra e i0 pkg"
    have i0: "i0 < length (requires pkg)" using Some by (rule find_dep_less)
    have names1: "map name (requires ?p1) = map name (requires pkg)"
      using i0 by (rule mark_extra_names)
    have len1: "length (requires ?p1) = length (requires pkg)"
      using names1 by (metis length_map)
    have find1: "\<And>m. find_dep m (requires ?p1) = find_dep m (requires pkg)"
      using names1 by (rule find_dep_names)
    have ex1: "extras ?p1 = al @ [(e, xs @ [i0])]"
      using Cons.prems by (simp add: mark_extra_def map_entry_last)
    from Cons.IH[OF ex1 Cons.prems(2)] obtain pkg' where p:
      "requirement_loop e (map TStr ns) ?p1 = Inr pkg'"
      "map name (requires pkg') = map name (requires ?p1)"
      "\<forall>i < length (requires ?p1).
          requires pkg' ! i = (requires ?p1 ! i)
            \<lparr>in_extras := in_extras (requires ?p1 ! i)
               @ map (\<lambda>n. e) (filter (\<lambda>n. find_dep n (requires ?p1) = Some i) ns)\<rparr>"
      "extras pkg' = al @ [(e, (xs @ [i0]) @ concat (map (\<lambda>n. case find_dep n (requires ?p1) of
                                                    None \<Rightarrow> [] | Some i \<Rightarrow> [i]) ns))]"
      by blast
    have a: "requirement_loop e (map TStr (n # ns)) pkg = Inr pkg'"
      using Some p(1) by (simp add: Dependency_def)
    have b: "map name (requires pkg') = map name (requires pkg)"
      using p(2) names1 by simp
    have c: "\<forall>i < length (requires pkg).
          requires pkg' ! i = (requires pkg ! i)
            \<lparr>in_extras := in_extras (requires pkg ! i)
               @ map (\<lambda>n. e) (filter (\<lambda>n. find_dep n (requires pkg) = Some i) (n # ns))\<rparr>"
    proof (intro allI impI)
      fix i assume i: "i < length (requires pkg)"
      have pi: "requires pkg' ! i = (requires ?p1 ! i)
            \<lparr>in_extras := in_extras (requires ?p1 ! i)
               @ map (\<lambda>n. e) (filter (\<lambda>n. find_dep n (requires pkg) = Some i) ns)\<rparr>"
        using p(3) i len1 by (simp add: find1)
      show "requires pkg' ! i = (requires pkg ! i)
            \<lparr>in_extras := in_extras (requires pkg ! i)
               @ map (\<lambda>n. e) (filter (\<lambda>n. find_dep n (requires pkg) = Some i) (n # ns))\<rparr>"
      proof (cases "i = i0")
        case True
        then show ?thesis using pi Some i by (simp add: mark_extra_def)
      next
        case False
        then show ?thesis using pi Some i by (simp add: mark_extra_def)
      qed
    qed
    have d: "extras pkg' = al @ [(e, xs @ concat (map (\<lambda>n. case find_dep n (requires pkg) of
                                                    None \<Rightarrow> [] | Some i \<Rightarrow> [i]) (n # ns)))]"
      using p(4) Some by (simp add: find1)
    show ?thesis using a b c d by blast
  qed
qed

lemma extras_loop_strings:
  assumes "distinct (map fst ex)" and "fst ` set (extras pkg) \<inter> fst ` set ex = {}"
  shows "\<exists>pkg'. extras_loop (map (\<lambda>(e, ns). (e, TArr (map TStr ns))) ex) pkg = Inr pkg'
     \<and> map name (requires pkg') = map name (requires pkg)
     \<and> (\<forall>i < length (requires pkg).
          requires pkg' ! i = (requires pkg ! i)
            \<lparr>in_extras := in_extras (requires pkg ! i)
               @ concat (map (\<lambda>(e, ns).
                   map (\<lambda>n. e) (filter (\<lambda>n. find_dep n (requires pkg) = Some i) ns)) ex)\<rparr>)
     \<and> extras pkg' = extras pkg
          @ map (\<lambda>(e, ns). (e, concat (map (\<lambda>n. case find_dep n (requires pkg) of
                                                  None \<Rightarrow> [] | Some i \<Rightarrow> [i]) ns))) ex"
  using assms
proof (induction ex arbitrary: pkg)
  case Nil
  then show ?case by simp
next
  case (Cons entry ex)
  obtain e ns where entry: "entry = (e, ns)" by (cases entry)
  let ?p0 = "pkg\<lparr>extras := AList.update e [] (extras pkg)\<rparr>"
  have fresh: "e \<notin> fst ` set (extras pkg)" using Cons.prems(2) entry by auto
  have ex0: "extras ?p0 = extras pkg @ [(e, [])]" using fresh by (simp add: update_fresh)
  from requirement_loop_strings[OF ex0 fresh, of ns] obtain p1 where p1:
    "requirement_loop e (map TStr ns) ?p0 = Inr p1"
    "map name (requires p1) = map name (requires pkg)"
    "\<forall>i < length (requires pkg).
          requires p1 ! i = (requires pkg ! i)
            \<lparr>in_extras := in_extras (requires pkg ! i)
               @ map (\<lambda>n. e) (filter (\<lambda>n. find_dep n (requires pkg) = Some i) ns)\<rparr>"
    "extras p1 = extras pkg @ [(e, concat (map (\<lambda>n. case find_dep n (requires pkg) of
                                                    None \<Rightarrow> [] | Some i \<Rightarrow> [i]) ns))]"
    by auto
  have len1: "length (requires p1) = length (requires pkg)"
    using p1(2) by (metis length_map)
  have find1: "\<And>m. find_dep m (requires p1) = find_dep m (requires pkg)"
    using p1(2) by (rule find_dep_names)
  have d: "distinct (map fst ex)" using Cons.prems(1) by simp
  have "e \<notin> fst ` set ex" using Cons.prems(1) entry by auto
  then have disj: "fst ` set (extras p1) \<inter> fst ` set ex = {}"
    using Cons.prems(2) p1(4) by auto
  from Cons.IH[OF d disj] obtain pkg' where p:
    "extras_loop (map (\<lambda>(e, ns). (e, TArr (map TStr ns))) ex) p1 = Inr pkg'"
    "map name (requires pkg') = map name (requires p1)"
    "\<forall>i < length (requires p1).
          requires pkg' ! i = (requires p1 ! i)
            \<lparr>in_extras := in_extras (requires p1 ! i)
               @ concat (map (\<lambda>(e, ns).
                   map (\<lambda>n. e) (filter (\<lambda>n. find_dep n (requires p1) = Some i) ns)) ex)\<rparr>"
    "extras pkg' = extras p1
          @ map (\<lambda>(e, ns). (e, concat (map (\<lambda>n. case find_dep n (requires p1) of
                                                  None \<Rightarrow> [] | Some i \<Rightarrow> [i]) ns))) ex"
    by blast
  have a: "extras_loop (map (\<lambda>(e, ns). (e, TArr (map TStr ns))) (entry # ex)) pkg = Inr pkg'"
    using entry p1(1) p(1) by simp
  have b: "map name (requires pkg') = map name (requires pkg)"
    using p(2) p1(2) by simp
  have c: "\<forall>i < length (requires pkg).
          requires pkg' ! i = (requires pkg ! i)
            \<lparr>in_extras := in_extras (requires pkg ! i)
               @ concat (map (\<lambda>(e, ns).
                   map (\<lambda>n. e) (filter (\<lambda>n. find_dep n (requires pkg) = Some i) ns))
                   (entry # ex))\<rparr>"
  proof (intro allI impI)
    fix i assume i: "i < length (requires pkg)"
    have "requires pkg' ! i = (requires p1 ! i)
            \<lparr>in_extras := in_extras (requires p1 ! i)
               @ concat (map (\<lambda>(e, ns).
                   map (\<lambda>n. e) (filter (\<lambda>n. find_dep n (requires pkg) = Some i) ns)) ex)\<rparr>"
      using p(3) i len1 by (simp add: find1)
    moreover have "requires p1 ! i = (requires pkg ! i)
            \<lparr>in_extras := in_extras (requires pkg ! i)
               @ map (\<lambda>n. e) (filter (\<lambda>n. find_dep n (requires pkg) = Some i) ns)\<rparr>"
      using p1(3) i by blast
    ultimately show "requires pkg' ! i = (requires pkg ! i)
            \<lparr>in_extras := in_extras (requires pkg ! i)
               @ concat (map (\<lambda>(e, ns).
                   map (\<lambda>n. e) (filter (\<lambda>n. find_dep n (requires pkg) = Some i) ns))
                   (entry # ex))\<rparr>"
      using entry by simp
  qed
  have d': "extras pkg' = extras pkg
          @ map (\<lambda>(e, ns). (e, concat (map (\<lambda>n. case find_dep n (requires pkg) of
                                                  None \<Rightarrow> [] | Some i \<Rightarrow> [i]) ns))) (entry # ex)"
    using p(4) p1(4) entry by (simp add: find1)
  show ?case using a b c d' by blast
qed

text \<open>
  Claim C1, as amended. When \<open>extras\<close> is a table that maps each extra to a list of
  strings and the package has no extras yet, the extras are read in order, and for every
  listed string the first Dependency of \<open>requires\<close> with that name gets the name of
  the extra appended to its \<open>in_extras\<close> and is appended to the list of the extra, once
  for each time the string is listed. Further Dependencies of the same name are left as
  they are, a string that names no Dependency adds nothing, and \<open>requires\<close> keeps its
  length: no Dependency is created. So the list of an extra is empty when none of its
  strings names a Dependency. Here \<open>find_dep n\<close> is the position of the first Dependency
  named \<open>n\<close>, and \<open>None\<close> when there is none.
\<close>

theorem extras_first_match:
  assumes "map_of lc ''extras'' = Some (TTable (map (\<lambda>(e, ns). (e, TArr (map TStr ns))) ex))"
    and "distinct (map fst ex)"
    and "extras pkg = []"
  shows "(\<exists>pkg'. load_extras lc pkg = Inr pkg'
     \<and> length (requires pkg') = length (requires pkg)
     \<and> (\<forall>i < length (requires pkg).
          requires pkg' ! i = (requires pkg ! i)
            \<lparr>in_extras := in_extras (requires pkg ! i)
               @ concat (map (\<lambda>(e, ns).
                   map (\<lambda>n. e) (filter (\<lambda>n. find_dep n (requires pkg) = Some i) ns)) ex)\<rparr>)
     \<and> extras pkg' =
          map (\<lambda>(e, ns). (e, concat (map (\<lambda>n. case find_dep n (requires pkg) of
                                                None \<Rightarrow> [] | Some i \<Rightarrow> [i]) ns))) ex)
   \<and> (\<forall>n i. find_dep n (requires pkg) = Some i \<longleftrightarrow>
          i < length (requires pkg) \<and> name (requires pkg ! i) = n
          \<and> (\<forall>j < i. name (requires pkg ! j) \<noteq> n))
   \<and> (\<forall>n. find_dep n (requires pkg) = None \<longleftrightarrow>
          (\<forall>d \<in> set (requires pkg). name d \<noteq> n))"
proof (intro conjI)
  show "\<forall>n i. find_dep n (requires pkg) = Some i \<longleftrightarrow>
          i < length (requires pkg) \<and> name (requires pkg ! i) = n
          \<and> (\<forall>j < i. name (requires pkg ! j) \<noteq> n)"
    by (intro allI) (rule find_dep_first)
  show "\<forall>n. find_dep n (requires pkg) = None \<longleftrightarrow>
          (\<forall>d \<in> set (requires pkg). name d \<noteq> n)"
    by (intro allI) (rule find_dep_None)
  have "fst ` set (extras pkg) \<inter> fst ` set ex = {}" using assms(3) by simp
  from extras_loop_strings[OF assms(2) this] obtain pkg' where p:
    "extras_loop (map (\<lambda>(e, ns). (e, TArr (map TStr ns))) ex) pkg = Inr pkg'"
    "map name (requires pkg') = map name (requires pkg)"
    "\<forall>i < length (requires pkg).
          requires pkg' ! i = (requires pkg ! i)
            \<lparr>in_extras := in_extras (requires pkg ! i)
               @ concat (map (\<lambda>(e, ns).
                   map (\<lambda>n. e) (filter (\<lambda>n. find_dep n (requires pkg) = Some i) ns)) ex)\<rparr>"
    "extras pkg' = extras pkg
          @ map (\<lambda>(e, ns). (e, concat (map (\<lambda>n. case find_dep n (requires pkg) of
                                                  None \<Rightarrow> [] | Some i \<Rightarrow> [i]) ns))) ex"
    by blast
  have a: "load_extras lc pkg = Inr pkg'"
    using assms(1) p(1) by (simp add: load_extras_def get_default_def)
  have b: "length (requires pkg') = length (requires pkg)"
    using p(2) by (metis length_map)
  show "\<exists>pkg'. load_extras lc pkg = Inr pkg'
     \<and> length (requires pkg') = length (requires pkg)
     \<and> (\<forall>i < length (requires pkg).
          requires pkg' ! i = (requires pkg ! i)
            \<lparr>in_extras := in_extras (requires pkg ! i)
               @ concat (map (\<lambda>(e, ns).
                   map (\<lambda>n. e) (filter (\<lambda>n. find_dep n (requires pkg) = Some i) ns)) ex)\<rparr>)
     \<and> extras pkg' =
          map (\<lambda>(e, ns). (e, concat (map (\<lambda>n. case find_dep n (requires pkg) of
                                                None \<Rightarrow> [] | Some i \<Rightarrow> [i]) ns))) ex"
    using a b p(3) p(4) assms(3) by auto
qed

theorem extras_first_match_witness:
  "(case load_extras example_section (add_dependency two_foo_package ''bar'' (TStr ''*'') ''main'') of
      Inl e \<Rightarrow> False
    | Inr pkg' \<Rightarrow>
        length (requires pkg') = 3
        \<and> requires pkg' ! 0 = \<lparr>name = ''foo'', constraint = TStr ''^1.0'', category = ''main'',
                                in_extras = [''feature'', ''other'']\<rparr>
        \<and> requires pkg' ! Suc 0 = \<lparr>name = ''foo'', constraint = TStr ''^2.0'', category = ''main'',
                                in_extras = []\<rparr>
        \<and> requires pkg' ! Suc (Suc 0) = \<lparr>name = ''bar'', constraint = TStr ''*'', category = ''main'',
                                in_extras = [''other'']\<rparr>
        \<and> extras pkg' = [(''feature'', [0]), (''other'', [2, 0])])"
proof -
  let ?pkg = "add_dependency two_foo_package ''bar'' (TStr ''*'') ''main''"
  let ?ex = "[(''feature'', [''foo'', ''missing'']), (''other'', [''bar'', ''foo''])]"
  have 1: "map_of example_section ''extras''
             = Some (TTable (map (\<lambda>(e, ns). (e, TArr (map TStr ns))) ?ex))"
    by (simp add: example_section_def example_manifest_def)
  have 2: "distinct (map fst ?ex)" by simp
  have r: "requires ?pkg = [Dependency ''foo'' (TStr ''^1.0'') ''main'',
                            Dependency ''foo'' (TStr ''^2.0'') ''main'',
                            Dependency ''bar'' (TStr ''*'') ''main'']"
    by (simp add: two_foo_package_def demo_package_def ProjectPackage_def add_dependency_def)
  have 3: "extras ?pkg = []"
    by (simp add: two_foo_package_def demo_package_def ProjectPackage_def add_dependency_def)
  from extras_first_match[OF 1 2 3, THEN conjunct1] obtain pkg' where p:
    "load_extras example_section ?pkg = Inr pkg'"
    "length (requires pkg') = length (requires ?pkg)"
    "\<forall>i < length (requires ?pkg).
          requires pkg' ! i = (requires ?pkg ! i)
            \<lparr>in_extras := in_extras (requires ?pkg ! i)
               @ concat (map (\<lambda>(e, ns).
                   map (\<lambda>n. e) (filter (\<lambda>n. find_dep n (requires ?pkg) = Some i) ns)) ?ex)\<rparr>"
    "extras pkg' =
          map (\<lambda>(e, ns). (e, concat (map (\<lambda>n. case find_dep n (requires ?pkg) of
                                                None \<Rightarrow> [] | Some i \<Rightarrow> [i]) ns))) ?ex"
    by blast
  have l: "length (requires pkg') = 3" using p(2) by (simp add: r)
  have a0: "requires pkg' ! 0 = \<lparr>name = ''foo'', constraint = TStr ''^1.0'', category = ''main'',
                                in_extras = [''feature'', ''other'']\<rparr>"
    using p(3)[rule_format, of 0] by (simp add: r Dependency_def)
  have a1: "requires pkg' ! Suc 0 = \<lparr>name = ''foo'', constraint = TStr ''^2.0'', category = ''main'',
                                in_extras = []\<rparr>"
    using p(3)[rule_format, of "Suc 0"] by (simp add: r Dependency_def)
  have a2: "requires pkg' ! Suc (Suc 0) = \<lparr>name = ''bar'', constraint = TStr ''*'', category = ''main'',
                                in_extras = [''other'']\<rparr>"
    using p(3)[rule_format, of "Suc (Suc 0)"] by (simp add: r Dependency_def)
  have e: "extras pkg' = [(''feature'', [0]), (''other'', [2, 0])]"
    using p(4) by (simp add: r Dependency_def)
  show ?thesis using p(1) l a0 a1 a2 e by simp
qed

text \<open>
  Claim C1 as stated fails: with \<open>foo = ["^1.0", "^2.0"]\<close> in the dependencies and
  \<open>feature = ["foo"]\<close> in the extras, \<open>requires\<close> holds two Dependencies named
  \<open>foo\<close>, and only the first is marked and listed under the extra: so for the two
  steps on the section, and so for the package that \<open>create\<close> returns.
\<close>

theorem extras_every_match_counterexample:
  "and_then (load_dependencies two_foo_section demo_package) (load_extras two_foo_section)
     = Inr (demo_package
             \<lparr>requires := [\<lparr>name = ''foo'', constraint = TStr ''^1.0'', category = ''main'',
                             in_extras = [''feature'']\<rparr>,
                           \<lparr>name = ''foo'', constraint = TStr ''^2.0'', category = ''main'',
                             in_extras = []\<rparr>],
              extras := [(''feature'', [0])]\<rparr>)
   \<and> \<not> isl (fst (create (example_env ''3.9'') two_foo_fs [''home'', ''proj'']))
   \<and> requires (package (projr (fst (create (example_env ''3.9'') two_foo_fs [''home'', ''proj'']))))
     = [\<lparr>name = ''foo'', constraint = TStr ''^1.0'', category = ''main'',
         in_extras = [''feature'']\<rparr>,
        \<lparr>name = ''foo'', constraint = TStr ''^2.0'', category = ''main'', in_extras = []\<rparr>]
   \<and> extras (package (projr (fst (create (example_env ''3.9'') two_foo_fs [''home'', ''proj'']))))
     = [(''feature'', [0])]"
proof -
  let ?E = "example_env ''3.9''"
  let ?pf = "[''home'', ''proj'', ''pyproject.toml'']"
  let ?p0 = "demo_package\<lparr>root_dir := [''home'', ''proj''], authors := [TStr ''A. Author'']\<rparr>"
  let ?p1 = "?p0\<lparr>requires := [Dependency ''foo'' (TStr ''^1.0'') ''main'',
                            Dependency ''foo'' (TStr ''^2.0'') ''main'']\<rparr>"
  let ?p3 = "?p1\<lparr>requires := [(Dependency ''foo'' (TStr ''^1.0'') ''main'')
                               \<lparr>in_extras := [''feature'']\<rparr>,
                            Dependency ''foo'' (TStr ''^2.0'') ''main''],
               extras := [(''feature'', [0])]\<rparr>"
  have a: "and_then (load_dependencies two_foo_section demo_package) (load_extras two_foo_section)
     = Inr (demo_package
             \<lparr>requires := [\<lparr>name = ''foo'', constraint = TStr ''^1.0'', category = ''main'',
                             in_extras = [''feature'']\<rparr>,
                           \<lparr>name = ''foo'', constraint = TStr ''^2.0'', category = ''main'',
                             in_extras = []\<rparr>],
              extras := [(''feature'', [0])]\<rparr>)"
    by (simp add: and_then_def load_dependencies_def load_extras_def get_default_def
        two_foo_section_def demo_package_def ProjectPackage_def add_dependency_def
        Dependency_def mark_extra_def lower_def lower_char_def)
  have 1: "locate two_foo_fs [''home'', ''proj''] = Inr ?pf"
    by (rule locate_example) (simp add: two_foo_fs_def)
  have 2: "read_toml ?E two_foo_fs ?pf
             = Inr [(''tool'', TTable [(''poetry'', TTable two_foo_section)])]"
    by (simp add: read_toml_def two_foo_fs_def example_env_def example_parse_def)
  have 3: "tool_poetry ?pf [(''tool'', TTable [(''poetry'', TTable two_foo_section)])]
           = Inr (TTable two_foo_section)"
    by (simp add: tool_poetry_def)
  have 4: "errors (check ?E (TTable two_foo_section)) = []"
    by (simp add: check_errors example_env_def example_validate_def two_foo_section_def)
  have 5: "load_metadata ?E ?pf two_foo_section = Inr ?p0"
    by (simp add: load_metadata_def and_then_def getitem_def get_default_def find_license_def
          find_readme_def two_foo_section_def example_env_def demo_package_def
          ProjectPackage_def parent_def)
  have 6: "load_dependencies two_foo_section ?p0 = Inr ?p1"
    by (simp add: load_dependencies_def two_foo_section_def lower_def lower_char_def
          add_dependency_def demo_package_def ProjectPackage_def)
  have 7: "load_dev_dependencies ?E [''home'', ''proj''] two_foo_section ?p1 = Inr ?p1"
    by (simp add: load_dev_dependencies_def two_foo_section_def)
  have 8: "load_extras two_foo_section ?p1 = Inr ?p3"
    by (simp add: load_extras_def get_default_def two_foo_section_def mark_extra_def
          Dependency_def demo_package_def ProjectPackage_def)
  have 9: "load_passthrough two_foo_section ?p3 = ?p3"
    by (simp add: load_passthrough_def two_foo_section_def demo_package_def ProjectPackage_def)
  have pkg: "load_package ?E [''home'', ''proj''] ?pf (TTable two_foo_section) = Inr ?p3"
    by (simp only: load_package_def and_then_def toml.case sum.case 5 6 7 8 9)
  have m: "load_manifest ?E two_foo_fs [''home'', ''proj'']
             = Inr (?pf, TTable two_foo_section, ?p3)"
    by (simp only: load_manifest_def and_then_def sum.case 1 2 3 4 pkg simp_thms if_False)
  have mv: "move_lock two_foo_fs ?pf = Inr two_foo_fs"
    using move_lock_pyproject[of two_foo_fs "[''home'', ''proj'']"]
    by (simp add: pjoin_def two_foo_fs_def)
  have cfg: "load_config ?E two_foo_fs ?pf = Inr []"
    by (simp add: load_config_def merge_file_def and_then_def exists_path_def
          pjoin_def parent_def two_foo_fs_def example_env_def)
  let ?P = "\<lparr>manifest_file = ?pf, local_config = TTable two_foo_section, package = ?p3,
             locker = \<lparr>lock_path = pjoin (parent ?pf) ''poetry.lock'',
                       lock_local_config = TTable two_foo_section\<rparr>,
             config = [], pool = []\<rparr>"
  have asm: "assemble ?E ?pf (TTable two_foo_section) ?p3 two_foo_fs = Inr ?P"
    by (simp only: assemble_def and_then_def cfg sum.case)
  have c: "create ?E two_foo_fs [''home'', ''proj''] = (Inr ?P, two_foo_fs)"
    by (simp only: create_def m mv asm sum.case prod.case)
  show ?thesis
    unfolding c using a
    by (simp add: Dependency_def demo_package_def ProjectPackage_def)
qed

section \<open>The development dependencies\<close>

lemma dev_constraint_loop_filtered:
  assumes "\<forall>c \<in> set cs.
             (\<exists>t. c = TTable t \<and>
                  (\<forall>pc. map_of t ''python'' = Some pc \<longrightarrow>
                        (\<exists>con. parse_single_constraint E pc = Inr con)))
             \<or> (\<exists>s. c = TStr s \<and> \<not> sublist ''python'' s)"
  shows "\<exists>pkg'. dev_constraint_loop E v n cs pkg = Inr pkg'
           \<and> requires pkg' =
               requires pkg @ map (\<lambda>c. Dependency n c ''dev'') (filter (dev_kept E v) cs)"
  using assms
proof (induction cs arbitrary: pkg)
  case Nil
  show ?case by simp
next
  case (Cons c cs)
  have rest: "\<forall>c \<in> set cs.
             (\<exists>t. c = TTable t \<and>
                  (\<forall>pc. map_of t ''python'' = Some pc \<longrightarrow>
                        (\<exists>con. parse_single_constraint E pc = Inr con)))
             \<or> (\<exists>s. c = TStr s \<and> \<not> sublist ''python'' s)"
    using Cons.prems by simp
  from Cons.prems consider
      (table) t where "c = TTable t"
        "\<forall>pc. map_of t ''python'' = Some pc \<longrightarrow> (\<exists>con. parse_single_constraint E pc = Inr con)"
    | (str) s where "c = TStr s" "\<not> sublist ''python'' s"
    by auto
  then show ?case
  proof cases
    case table
    show ?thesis
    proof (cases "map_of t ''python''")
      case None
      from Cons.IH[OF rest, of "add_dependency pkg n c ''dev''"] show ?thesis
        using table(1) None by (simp add: dev_kept_def add_dependency_def)
    next
      case (Some pc)
      then obtain con where con: "parse_single_constraint E pc = Inr con"
        using table(2) by blast
      show ?thesis
      proof (cases "allows E con v")
        case True
        from Cons.IH[OF rest, of "add_dependency pkg n c ''dev''"] show ?thesis
          using table(1) Some con True by (simp add: dev_kept_def add_dependency_def)
      next
        case False
        from Cons.IH[OF rest, of pkg] show ?thesis
          using table(1) Some con False by (simp add: dev_kept_def)
      qed
    qed
  next
    case str
    from Cons.IH[OF rest, of "add_dependency pkg n c ''dev''"] show ?thesis
      using str by (simp add: dev_kept_def add_dependency_def)
  qed
qed

lemma dev_loop_filtered:
  assumes "\<forall>(n, c) \<in> set entries. \<forall>c' \<in> set (case c of TArr cs \<Rightarrow> cs | _ \<Rightarrow> [c]).
             (\<exists>t. c' = TTable t \<and>
                  (\<forall>pc. map_of t ''python'' = Some pc \<longrightarrow>
                        (\<exists>con. parse_single_constraint E pc = Inr con)))
             \<or> (\<exists>s. c' = TStr s \<and> \<not> sublist ''python'' s)"
  shows "\<exists>pkg'. dev_loop E v entries pkg = Inr pkg'
           \<and> requires pkg' =
               requires pkg @ concat (map (\<lambda>(n, c).
                 map (\<lambda>c'. Dependency n c' ''dev'')
                   (filter (dev_kept E v) (case c of TArr cs \<Rightarrow> cs | _ \<Rightarrow> [c]))) entries)"
  using assms
proof (induction entries arbitrary: pkg)
  case Nil
  show ?case by simp
next
  case (Cons entry entries)
  obtain n c where entry: "entry = (n, c)" by (cases entry)
  have here: "\<forall>c' \<in> set (case c of TArr cs \<Rightarrow> cs | _ \<Rightarrow> [c]).
             (\<exists>t. c' = TTable t \<and>
                  (\<forall>pc. map_of t ''python'' = Some pc \<longrightarrow>
                        (\<exists>con. parse_single_constraint E pc = Inr con)))
             \<or> (\<exists>s. c' = TStr s \<and> \<not> sublist ''python'' s)"
    using Cons.prems entry by simp
  have rest: "\<forall>(n, c) \<in> set entries. \<forall>c' \<in> set (case c of TArr cs \<Rightarrow> cs | _ \<Rightarrow> [c]).
             (\<exists>t. c' = TTable t \<and>
                  (\<forall>pc. map_of t ''python'' = Some pc \<longrightarrow>
                        (\<exists>con. parse_single_constraint E pc = Inr con)))
             \<or> (\<exists>s. c' = TStr s \<and> \<not> sublist ''python'' s)"
    using Cons.prems by simp
  from dev_constraint_loop_filtered[OF here, of v n pkg] obtain p1 where p1:
    "dev_constraint_loop E v n (case c of TArr cs \<Rightarrow> cs | _ \<Rightarrow> [c]) pkg = Inr p1"
    "requires p1 = requires pkg @ map (\<lambda>c'. Dependency n c' ''dev'')
                     (filter (dev_kept E v) (case c of TArr cs \<Rightarrow> cs | _ \<Rightarrow> [c]))"
    by blast
  from Cons.IH[OF rest, of p1] obtain pkg' where p:
    "dev_loop E v entries p1 = Inr pkg'"
    "requires pkg' = requires p1 @ concat (map (\<lambda>(n, c).
                 map (\<lambda>c'. Dependency n c' ''dev'')
                   (filter (dev_kept E v) (case c of TArr cs \<Rightarrow> cs | _ \<Rightarrow> [c]))) entries)"
    by blast
  have "dev_loop E v (entry # entries) pkg = Inr pkg'"
    using entry p1(1) p(1) by simp
  moreover have "requires pkg' = requires pkg @ concat (map (\<lambda>(n, c).
                 map (\<lambda>c'. Dependency n c' ''dev'')
                   (filter (dev_kept E v) (case c of TArr cs \<Rightarrow> cs | _ \<Rightarrow> [c])))
                 (entry # entries))"
    using entry p1(2) p(2) by simp
  ultimately show ?case by blast
qed

text \<open>
  The filter on well-formed entries. When every constraint of the table (every element,
  for a list) is a dictionary whose \<open>python\<close> value, if it has one, parses, or a string
  in which the text \<open>python\<close> does not occur, the development dependencies are read in
  order: a dictionary with a \<open>python\<close> constraint that the python version of the host
  does not satisfy is skipped, and every other constraint adds one Dependency of category
  \<open>dev\<close> at the end of \<open>requires\<close>.
\<close>

lemma dev_dependencies_filtered:
  assumes "map_of lc ''dev-dependencies'' = Some (TTable entries)"
    and "version_parse E (marker_python_version E cwd) = Inr v"
    and "\<forall>(n, c) \<in> set entries. \<forall>c' \<in> set (case c of TArr cs \<Rightarrow> cs | _ \<Rightarrow> [c]).
             (\<exists>t. c' = TTable t \<and>
                  (\<forall>pc. map_of t ''python'' = Some pc \<longrightarrow>
                        (\<exists>con. parse_single_constraint E pc = Inr con)))
             \<or> (\<exists>s. c' = TStr s \<and> \<not> sublist ''python'' s)"
  shows "\<exists>pkg'. load_dev_dependencies E cwd lc pkg = Inr pkg'
           \<and> requires pkg' =
               requires pkg @ concat (map (\<lambda>(n, c).
                 map (\<lambda>c'. Dependency n c' ''dev'')
                   (filter (dev_kept E v) (case c of TArr cs \<Rightarrow> cs | _ \<Rightarrow> [c]))) entries)"
  using dev_loop_filtered[OF assms(3), of v pkg] assms(1,2)
  by (simp add: load_dev_dependencies_def)

text \<open>The example of the spec: \<open>python = "<3.0"\<close> is left out on a host with python
  3.9 and taken on a host with python 2.7.\<close>

lemma dev_dependencies_filtered_example:
  "(case load_dev_dependencies (example_env ''3.9'') [''home'', ''proj''] example_section demo_package of
      Inl e \<Rightarrow> False
    | Inr pkg' \<Rightarrow> map name (requires pkg') = [''new'', ''plain'']
                  \<and> map category (requires pkg') = [''dev'', ''dev''])
   \<and> (case load_dev_dependencies (example_env ''2.7'') [''home'', ''proj''] example_section demo_package of
      Inl e \<Rightarrow> False
    | Inr pkg' \<Rightarrow> map name (requires pkg') = [''old'', ''plain'']
                  \<and> map category (requires pkg') = [''dev'', ''dev''])"
  by (simp add: load_dev_dependencies_def example_section_def example_manifest_def
        example_env_def example_version_def example_constraint_def example_allows_def
        demo_package_def ProjectPackage_def add_dependency_def Dependency_def
        sublist_Cons_right)

text \<open>
  Claim C3 fails on the code for a constraint that is a string in which the text
  \<open>python\<close> occurs, such as the version \<open>1.0+python\<close>. The entry has no python
  sub-constraint, and the claim has it added as a Dependency of category \<open>dev\<close>. Line
  135 tests \<open>'python' in _constraint\<close> on the string, which is true of it, and line 136
  subscripts the string with \<open>'python'\<close>: \<open>TypeError\<close>. No Dependency is added and
  \<open>create\<close> as a whole ends with this exception.
\<close>

theorem dev_dependency_text_python:
  "load_dev_dependencies (example_env ''3.9'') [''home'', ''proj'']
       [(''dev-dependencies'', TTable [(''foo'', TStr ''1.0+python'')])] demo_package
     = Inl TypeError
   \<and> create (example_env ''3.9'') local_label_fs [''home'', ''proj'']
     = (Inl TypeError, local_label_fs)"
proof
  show a: "load_dev_dependencies (example_env ''3.9'') [''home'', ''proj'']
       [(''dev-dependencies'', TTable [(''foo'', TStr ''1.0+python'')])] demo_package
     = Inl TypeError"
    by (simp add: load_dev_dependencies_def example_env_def example_version_def
          sublist_Cons_right)
  have 1: "locate local_label_fs [''home'', ''proj''] = Inr [''home'', ''proj'', ''pyproject.toml'']"
    by (rule locate_example) (simp add: local_label_fs_def)
  have 2: "read_toml (example_env ''3.9'') local_label_fs [''home'', ''proj'', ''pyproject.toml'']
             = Inr [(''tool'', TTable [(''poetry'', TTable local_label_section)])]"
    by (simp add: read_toml_def local_label_fs_def example_env_def example_parse_def)
  have 3: "tool_poetry [''home'', ''proj'', ''pyproject.toml'']
             [(''tool'', TTable [(''poetry'', TTable local_label_section)])]
           = Inr (TTable local_label_section)"
    by (simp add: tool_poetry_def)
  have 4: "errors (check (example_env ''3.9'') (TTable local_label_section)) = []"
    by (simp add: check_errors example_env_def example_validate_def local_label_section_def)
  have 5: "load_metadata (example_env ''3.9'') [''home'', ''proj'', ''pyproject.toml'']
             local_label_section
           = Inr (demo_package\<lparr>root_dir := [''home'', ''proj''], authors := [TStr ''A. Author'']\<rparr>)"
    by (simp add: load_metadata_def and_then_def getitem_def get_default_def find_license_def
          find_readme_def local_label_section_def example_env_def demo_package_def ProjectPackage_def parent_def)
  have 6: "load_dependencies local_label_section
             (demo_package\<lparr>root_dir := [''home'', ''proj''], authors := [TStr ''A. Author'']\<rparr>)
           = Inr (demo_package\<lparr>root_dir := [''home'', ''proj''], authors := [TStr ''A. Author'']\<rparr>)"
    by (simp add: load_dependencies_def local_label_section_def)
  have 7: "load_dev_dependencies (example_env ''3.9'') [''home'', ''proj''] local_label_section
             (demo_package\<lparr>root_dir := [''home'', ''proj''], authors := [TStr ''A. Author'']\<rparr>)
           = Inl TypeError"
    by (simp add: load_dev_dependencies_def local_label_section_def example_env_def
          example_version_def sublist_Cons_right)
  have "load_package (example_env ''3.9'') [''home'', ''proj''] [''home'', ''proj'', ''pyproject.toml'']
          (TTable local_label_section) = Inl TypeError"
    by (simp add: load_package_def and_then_def 5 6 7)
  then have "load_manifest (example_env ''3.9'') local_label_fs [''home'', ''proj''] = Inl TypeError"
    by (simp add: load_manifest_def and_then_def 1 2 3 4)
  then show "create (example_env ''3.9'') local_label_fs [''home'', ''proj'']
     = (Inl TypeError, local_label_fs)"
    by (simp add: create_def)
qed

section \<open>The whole of \<open>create\<close>\<close>

lemma load_metadata_fresh:
  "load_metadata E pf lc = Inr p0 \<Longrightarrow> requires p0 = [] \<and> extras p0 = []"
  by (auto simp: load_metadata_def and_then_def ProjectPackage_def split: sum.splits)

lemma add_each_extras: "extras (add_each n cs pkg) = extras pkg"
  by (induction cs arbitrary: pkg) (simp_all add: add_dependency_def)

lemma dependencies_loop_extras: "extras (dependencies_loop entries pkg) = extras pkg"
proof (induction entries arbitrary: pkg)
  case Nil
  show ?case by simp
next
  case (Cons entry entries)
  obtain n c where "entry = (n, c)" by (cases entry)
  then show ?case using Cons.IH
    by (cases c) (simp_all add: add_each_extras add_dependency_def)
qed

lemma load_dependencies_extras: "load_dependencies lc pkg = Inr pkg' \<Longrightarrow> extras pkg' = extras pkg"
  by (auto simp: load_dependencies_def dependencies_loop_extras split: option.splits sum.splits)

lemma dev_constraint_loop_extras:
  "dev_constraint_loop E v n cs pkg = Inr pkg' \<Longrightarrow> extras pkg' = extras pkg"
proof (induction cs arbitrary: pkg)
  case Nil
  then show ?case by simp
next
  case (Cons c cs)
  show ?case
  proof (cases "py_contains c ''python''")
    case (Inl e)
    then show ?thesis using Cons.prems by simp
  next
    case (Inr b)
    show ?thesis
    proof (cases b)
      case False
      then have "dev_constraint_loop E v n cs (add_dependency pkg n c ''dev'') = Inr pkg'"
        using Cons.prems Inr by simp
      from Cons.IH[OF this] show ?thesis by (simp add: add_dependency_def)
    next
      case True
      then obtain pc con where pc: "py_getitem c ''python'' = Inr pc"
        "parse_single_constraint E pc = Inr con"
        using Cons.prems Inr by (auto split: sum.splits)
      show ?thesis
      proof (cases "allows E con v")
        case False
        then have "dev_constraint_loop E v n cs pkg = Inr pkg'"
          using Cons.prems Inr True pc by simp
        from Cons.IH[OF this] show ?thesis .
      next
        case allowed: True
        then have "dev_constraint_loop E v n cs (add_dependency pkg n c ''dev'') = Inr pkg'"
          using Cons.prems Inr True pc by simp
        from Cons.IH[OF this] show ?thesis by (simp add: add_dependency_def)
      qed
    qed
  qed
qed

lemma dev_loop_extras: "dev_loop E v entries pkg = Inr pkg' \<Longrightarrow> extras pkg' = extras pkg"
proof (induction entries arbitrary: pkg)
  case Nil
  then show ?case by simp
next
  case (Cons entry entries)
  obtain n c where entry: "entry = (n, c)" by (cases entry)
  from Cons.prems entry obtain p1 where p1:
    "dev_constraint_loop E v n (case c of TArr cs \<Rightarrow> cs | _ \<Rightarrow> [c]) pkg = Inr p1"
    "dev_loop E v entries p1 = Inr pkg'"
    by (auto split: sum.splits)
  show ?case using Cons.IH[OF p1(2)] dev_constraint_loop_extras[OF p1(1)] by simp
qed

lemma load_dev_dependencies_extras:
  "load_dev_dependencies E cwd lc pkg = Inr pkg' \<Longrightarrow> extras pkg' = extras pkg"
  by (auto simp: load_dev_dependencies_def dest: dev_loop_extras split: option.splits sum.splits)

text \<open>A facade is returned exactly along the steps of \<open>create\<close>.\<close>

lemma create_success:
  assumes "create E f cwd = (Inr P, f')"
  shows "\<exists>doc lc p0 p1 p2 p3.
      locate f cwd = Inr (manifest_file P)
      \<and> read_toml E f (manifest_file P) = Inr doc
      \<and> tool_poetry (manifest_file P) doc = Inr (TTable lc)
      \<and> local_config P = TTable lc
      \<and> validate_object E (TTable lc) ''poetry-schema'' = []
      \<and> load_metadata E (manifest_file P) lc = Inr p0
      \<and> load_dependencies lc p0 = Inr p1
      \<and> load_dev_dependencies E cwd lc p1 = Inr p2
      \<and> extras p2 = []
      \<and> load_extras lc p2 = Inr p3
      \<and> package P = load_passthrough lc p3
      \<and> move_lock f (manifest_file P) = Inr f'
      \<and> load_config E f' (manifest_file P) = Inr (config P)"
proof -
  from assms obtain pf l pkg where m: "load_manifest E f cwd = Inr (pf, l, pkg)"
    and mv: "move_lock f pf = Inr f'" and asm: "assemble E pf l pkg f' = Inr P"
    by (auto simp: create_def split: sum.splits prod.splits)
  from asm have cfg: "load_config E f' pf = Inr (config P)" and P: "manifest_file P = pf"
    "local_config P = l" "package P = pkg"
    by (auto simp: assemble_def and_then_def split: sum.splits)
  from m obtain doc where 1: "locate f cwd = Inr pf" and 2: "read_toml E f pf = Inr doc"
    and 3: "tool_poetry pf doc = Inr l" and 4: "errors (check E l) = []"
    and 5: "load_package E cwd pf l = Inr pkg"
    by (auto simp: load_manifest_def and_then_def split: sum.splits if_splits)
  from 5 obtain lc where l: "l = TTable lc"
    by (cases l) (simp_all add: load_package_def)
  from 5 l obtain p0 p1 p2 p3 where 6: "load_metadata E pf lc = Inr p0"
    and 7: "load_dependencies lc p0 = Inr p1"
    and 8: "load_dev_dependencies E cwd lc p1 = Inr p2"
    and 9: "load_extras lc p2 = Inr p3" and 10: "pkg = load_passthrough lc p3"
    by (auto simp: load_package_def and_then_def split: sum.splits)
  have "extras p2 = []"
    using load_metadata_fresh[OF 6] load_dependencies_extras[OF 7]
      load_dev_dependencies_extras[OF 8] by simp
  then show ?thesis
    using 1 2 3 4 6 7 8 9 10 mv cfg P l by (auto simp: check_errors)
qed


text \<open>A run of \<open>create\<close> from a subdirectory of the example project, on a host with
  python 3.9: the manifest of the parent directory is taken, the development dependency
  for python below 3.0 is left out, the extras refer to the first \<open>foo\<close>, the old lock
  file is moved and the two configuration files that exist are merged.\<close>

lemma create_example:
  "(case create (example_env ''3.9'') project_fs [''home'', ''proj'', ''src''] of
      (Inl e, f') \<Rightarrow> False
    | (Inr P, f') \<Rightarrow>
        manifest_file P = [''home'', ''proj'', ''pyproject.toml'']
        \<and> python_versions (package P) = TStr ''^3.6''
        \<and> requires (package P) =
            [\<lparr>name = ''foo'', constraint = TStr ''^1.0'', category = ''main'',
              in_extras = [''feature'', ''other'']\<rparr>,
             \<lparr>name = ''foo'', constraint = TStr ''^2.0'', category = ''main'', in_extras = []\<rparr>,
             \<lparr>name = ''bar'', constraint = TStr ''*'', category = ''main'',
              in_extras = [''other'']\<rparr>,
             \<lparr>name = ''new'',
              constraint = TTable [(''version'', TStr ''2.0''), (''python'', TStr ''>=3.0'')],
              category = ''dev'', in_extras = []\<rparr>,
             \<lparr>name = ''plain'', constraint = TStr ''^5.0'', category = ''dev'', in_extras = []\<rparr>]
        \<and> extras (package P) = [(''feature'', [0]), (''other'', [2, 0])]
        \<and> extra_dependencies (package P) ''feature'' =
            Some [\<lparr>name = ''foo'', constraint = TStr ''^1.0'', category = ''main'',
                   in_extras = [''feature'', ''other'']\<rparr>]
        \<and> lock_path (locker P) = [''home'', ''proj'', ''poetry.lock'']
        \<and> config P = [(''a'', TInt 1), (''b'', TInt 1),
                        (''http-basic'', TTable [(''private'', TTable
                           [(''username'', TStr ''user''), (''password'', TStr ''secret'')])])]
        \<and> f' [''home'', ''proj'', ''poetry.lock''] = Some ''locked''
        \<and> f' [''home'', ''proj'', ''pyproject.lock''] = None)"
proof -
  let ?E = "example_env ''3.9''"
  let ?pf = "[''home'', ''proj'', ''pyproject.toml'']"
  have 1: "locate project_fs [''home'', ''proj'', ''src''] = Inr ?pf"
    by (simp add: locate_def candidates_def parents_def pjoin_def exists_path_def project_fs_def)
  have 2: "read_toml ?E project_fs ?pf = Inr example_manifest"
    by (simp add: read_toml_def project_fs_def example_env_def example_parse_def)
  have 3: "tool_poetry ?pf example_manifest = Inr (TTable example_section)"
    by (simp add: tool_poetry_def example_manifest_def example_section_def)
  have 4: "errors (check ?E (TTable example_section)) = []"
    by (simp add: check_errors example_env_def example_validate_def example_section_def
          example_manifest_def)
  let ?p0 = "demo_package\<lparr>root_dir := [''home'', ''proj''], authors := [TStr ''A. Author'']\<rparr>"
  have 5: "load_metadata ?E ?pf example_section = Inr ?p0"
    by (simp add: load_metadata_def and_then_def getitem_def get_default_def find_license_def
          find_readme_def example_section_def example_manifest_def example_env_def
          demo_package_def ProjectPackage_def parent_def)
  let ?p1 = "?p0\<lparr>python_versions := TStr ''^3.6'',
               requires := [Dependency ''foo'' (TStr ''^1.0'') ''main'',
                            Dependency ''foo'' (TStr ''^2.0'') ''main'',
                            Dependency ''bar'' (TStr ''*'') ''main'']\<rparr>"
  have 6: "load_dependencies example_section ?p0 = Inr ?p1"
    by (simp add: load_dependencies_def example_section_def example_manifest_def
          lower_def lower_char_def add_dependency_def demo_package_def ProjectPackage_def)
  let ?new = "TTable [(''version'', TStr ''2.0''), (''python'', TStr ''>=3.0'')]"
  let ?p2 = "?p1\<lparr>requires := [Dependency ''foo'' (TStr ''^1.0'') ''main'',
                            Dependency ''foo'' (TStr ''^2.0'') ''main'',
                            Dependency ''bar'' (TStr ''*'') ''main'',
                            Dependency ''new'' ?new ''dev'',
                            Dependency ''plain'' (TStr ''^5.0'') ''dev'']\<rparr>"
  have 7: "load_dev_dependencies ?E [''home'', ''proj'', ''src''] example_section ?p1 = Inr ?p2"
    by (simp add: load_dev_dependencies_def example_section_def example_manifest_def
          example_env_def example_version_def example_constraint_def example_allows_def
          add_dependency_def demo_package_def ProjectPackage_def sublist_Cons_right)
  let ?p3 = "?p2\<lparr>requires := [(Dependency ''foo'' (TStr ''^1.0'') ''main'')
                               \<lparr>in_extras := [''feature'', ''other'']\<rparr>,
                            Dependency ''foo'' (TStr ''^2.0'') ''main'',
                            (Dependency ''bar'' (TStr ''*'') ''main'')\<lparr>in_extras := [''other'']\<rparr>,
                            Dependency ''new'' ?new ''dev'',
                            Dependency ''plain'' (TStr ''^5.0'') ''dev''],
               extras := [(''feature'', [0]), (''other'', [2, 0])]\<rparr>"
  have 8: "load_extras example_section ?p2 = Inr ?p3"
    by (simp add: load_extras_def get_default_def example_section_def example_manifest_def
          mark_extra_def Dependency_def demo_package_def ProjectPackage_def)
  have 9: "load_passthrough example_section ?p3 = ?p3"
    by (simp add: load_passthrough_def example_section_def example_manifest_def
          demo_package_def ProjectPackage_def)
  have pkg: "load_package ?E [''home'', ''proj'', ''src''] ?pf (TTable example_section) = Inr ?p3"
    by (simp only: load_package_def and_then_def toml.case sum.case 5 6 7 8 9)
  have m: "load_manifest ?E project_fs [''home'', ''proj'', ''src'']
             = Inr (?pf, TTable example_section, ?p3)"
    by (simp only: load_manifest_def and_then_def sum.case 1 2 3 4 pkg simp_thms if_False)
  let ?f' = "move project_fs [''home'', ''proj'', ''pyproject.lock''] [''home'', ''proj'', ''poetry.lock'']"
  have mv: "move_lock project_fs ?pf = Inr ?f'"
    using move_lock_pyproject[of project_fs "[''home'', ''proj'']"]
    by (simp add: pjoin_def project_fs_def)
  have cfg: "load_config ?E ?f' ?pf
               = Inr [(''a'', TInt 1), (''b'', TInt 1),
                      (''http-basic'', TTable [(''private'', TTable
                         [(''username'', TStr ''user''), (''password'', TStr ''secret'')])])]"
    by (simp add: load_config_def merge_file_def and_then_def exists_path_def move_def
          read_toml_def pjoin_def parent_def project_fs_def example_env_def example_parse_def)
  let ?P = "\<lparr>manifest_file = ?pf, local_config = TTable example_section, package = ?p3,
             locker = \<lparr>lock_path = pjoin (parent ?pf) ''poetry.lock'',
                       lock_local_config = TTable example_section\<rparr>,
             config = [(''a'', TInt 1), (''b'', TInt 1),
                      (''http-basic'', TTable [(''private'', TTable
                         [(''username'', TStr ''user''), (''password'', TStr ''secret'')])])],
             pool = []\<rparr>"
  have asm: "assemble ?E ?pf (TTable example_section) ?p3 ?f' = Inr ?P"
    by (simp only: assemble_def and_then_def cfg sum.case)
  have c: "create ?E project_fs [''home'', ''proj'', ''src''] = (Inr ?P, ?f')"
    by (simp only: create_def m mv asm sum.case prod.case)
  show ?thesis
    unfolding c
    by (simp add: extra_dependencies_def Dependency_def pjoin_def parent_def move_def
          project_fs_def demo_package_def ProjectPackage_def)
qed

end
